theory Spec2Isabelle
  imports Complex_Main "HOL-Library.AList"
begin

section \<open>Strings\<close>

text \<open>
  JavaScript strings are modelled as \<open>string\<close> (a list of characters). The wire protocol
  is ASCII, so one \<open>char\<close> stands for one code unit.
\<close>

definition newline :: char where
  "newline = CHR 0x0A"

text \<open>
  \<^verbatim>\<open>s.indexOf(c)\<close>: the index of the first occurrence; JavaScript's \<^verbatim>\<open>-1\<close> is \<open>None\<close>.
\<close>

fun indexOf :: "char \<Rightarrow> string \<Rightarrow> nat option" where
  "indexOf c [] = None"
| "indexOf c (x # xs) = (if x = c then Some 0 else map_option Suc (indexOf c xs))"

text \<open>
  \<^verbatim>\<open>s.substring(a, b)\<close> and \<^verbatim>\<open>s.substring(a)\<close>. JavaScript clamps both indices to the
  length of the string and swaps them when \<open>a > b\<close>.
\<close>

definition substring :: "string \<Rightarrow> nat \<Rightarrow> nat \<Rightarrow> string" where
  "substring s a b =
     (let a' = min a (length s); b' = min b (length s)
      in take (max a' b' - min a' b') (drop (min a' b') s))"

definition substringFrom :: "string \<Rightarrow> nat \<Rightarrow> string" where
  "substringFrom s a = drop a s"

text \<open>
  The white space \<^verbatim>\<open>trim\<close> and \<^verbatim>\<open>parseFloat\<close> strip: tab, line feed, vertical tab, form
  feed, carriage return, space and no-break space. (The white space of JavaScript beyond
  code unit 255 cannot occur in a \<open>char\<close>.)
\<close>

definition isWhiteSpace :: "char \<Rightarrow> bool" where
  "isWhiteSpace c \<longleftrightarrow> c \<in> set [CHR 0x09, CHR 0x0A, CHR 0x0B, CHR 0x0C, CHR 0x0D, CHR 0x20, CHR 0xA0]"

definition trimStart :: "string \<Rightarrow> string" where
  "trimStart s = dropWhile isWhiteSpace s"

definition trim :: "string \<Rightarrow> string" where
  "trim s = rev (dropWhile isWhiteSpace (rev (dropWhile isWhiteSpace s)))"

definition startsWith :: "string \<Rightarrow> string \<Rightarrow> bool" where
  "startsWith s p \<longleftrightarrow> take (length p) s = p"

definition isDigit :: "char \<Rightarrow> bool" where
  "isDigit c \<longleftrightarrow> c \<in> set ''0123456789''"

section \<open>Numbers\<close>

text \<open>
  A JavaScript number is modelled as a real number or one of the special values of a
  double: negative zero, the two infinities and NaN. \<open>Fin 0\<close> is positive zero. The
  rounding of double arithmetic is not modelled (every finite result is exact, and no
  finite operation overflows); the special values follow IEEE 754 as JavaScript does.
\<close>

datatype jsnum = Fin real | NegZero | PosInf | NegInf | NaN

fun isNeg :: "jsnum \<Rightarrow> bool" where
  "isNeg (Fin x) = (x < 0)"
| "isNeg NegZero = True"
| "isNeg NegInf = True"
| "isNeg PosInf = False"
| "isNeg NaN = False"

fun isZero :: "jsnum \<Rightarrow> bool" where
  "isZero (Fin x) = (x = 0)"
| "isZero NegZero = True"
| "isZero _ = False"

fun isInf :: "jsnum \<Rightarrow> bool" where
  "isInf PosInf = True"
| "isInf NegInf = True"
| "isInf _ = False"

fun isNaN :: "jsnum \<Rightarrow> bool" where
  "isNaN NaN = True"
| "isNaN _ = False"

text \<open>The real value of a finite number.\<close>

fun mag :: "jsnum \<Rightarrow> real" where
  "mag (Fin x) = x"
| "mag _ = 0"

definition jsZero :: "bool \<Rightarrow> jsnum" where
  "jsZero neg = (if neg then NegZero else Fin 0)"

definition jsInf :: "bool \<Rightarrow> jsnum" where
  "jsInf neg = (if neg then NegInf else PosInf)"

text \<open>A finite result \<open>r\<close>; when it is zero, its sign is \<open>neg\<close>.\<close>

definition jsFin :: "real \<Rightarrow> bool \<Rightarrow> jsnum" where
  "jsFin r neg = (if r = 0 then jsZero neg else Fin r)"

definition jneg :: "jsnum \<Rightarrow> jsnum" where
  "jneg a = (case a of NaN \<Rightarrow> NaN | PosInf \<Rightarrow> NegInf | NegInf \<Rightarrow> PosInf
             | NegZero \<Rightarrow> Fin 0 | Fin x \<Rightarrow> jsFin (- x) True)"

definition jabs :: "jsnum \<Rightarrow> jsnum" where
  "jabs a = (case a of NaN \<Rightarrow> NaN | PosInf \<Rightarrow> PosInf | NegInf \<Rightarrow> PosInf
             | NegZero \<Rightarrow> Fin 0 | Fin x \<Rightarrow> Fin \<bar>x\<bar>)"

definition jadd :: "jsnum \<Rightarrow> jsnum \<Rightarrow> jsnum" where
  "jadd a b =
     (if isNaN a \<or> isNaN b then NaN
      else if isInf a \<and> isInf b then (if isNeg a = isNeg b then a else NaN)
      else if isInf a then a
      else if isInf b then b
      else if isZero a \<and> isZero b then jsZero (isNeg a \<and> isNeg b)
      else jsFin (mag a + mag b) False)"

definition jsub :: "jsnum \<Rightarrow> jsnum \<Rightarrow> jsnum" where
  "jsub a b = jadd a (jneg b)"

definition jmul :: "jsnum \<Rightarrow> jsnum \<Rightarrow> jsnum" where
  "jmul a b =
     (if isNaN a \<or> isNaN b then NaN
      else if (isInf a \<and> isZero b) \<or> (isZero a \<and> isInf b) then NaN
      else if isInf a \<or> isInf b then jsInf (isNeg a \<noteq> isNeg b)
      else jsFin (mag a * mag b) (isNeg a \<noteq> isNeg b))"

definition jdiv :: "jsnum \<Rightarrow> jsnum \<Rightarrow> jsnum" where
  "jdiv a b =
     (if isNaN a \<or> isNaN b then NaN
      else if (isInf a \<and> isInf b) \<or> (isZero a \<and> isZero b) then NaN
      else if isInf a then jsInf (isNeg a \<noteq> isNeg b)
      else if isInf b then jsZero (isNeg a \<noteq> isNeg b)
      else if isZero b then jsInf (isNeg a \<noteq> isNeg b)
      else jsFin (mag a / mag b) (isNeg a \<noteq> isNeg b))"

text \<open>\<^verbatim>\<open>a < b\<close>: false when either side is NaN; the two zeros are equal.\<close>

definition jlt :: "jsnum \<Rightarrow> jsnum \<Rightarrow> bool" where
  "jlt a b \<longleftrightarrow>
     (if isNaN a \<or> isNaN b then False
      else if a = PosInf \<or> b = NegInf then False
      else if a = NegInf \<or> b = PosInf then True
      else mag a < mag b)"

text \<open>
  \<^verbatim>\<open>Math.max\<close> and \<^verbatim>\<open>Math.min\<close> of two numbers: NaN if either is NaN; positive zero
  is larger than negative zero. \<^verbatim>\<open>Math.max(...list)\<close> is \<^verbatim>\<open>-Infinity\<close> on the empty list.
\<close>

definition jmax :: "jsnum \<Rightarrow> jsnum \<Rightarrow> jsnum" where
  "jmax a b =
     (if isNaN a \<or> isNaN b then NaN
      else if jlt a b then b
      else if jlt b a then a
      else if isNeg a then b else a)"

definition jmin :: "jsnum \<Rightarrow> jsnum \<Rightarrow> jsnum" where
  "jmin a b =
     (if isNaN a \<or> isNaN b then NaN
      else if jlt a b then a
      else if jlt b a then b
      else if isNeg a then a else b)"

definition Math_max :: "jsnum list \<Rightarrow> jsnum" where
  "Math_max xs = fold (\<lambda>x acc. jmax acc x) xs NegInf"

text \<open>
  \<^verbatim>\<open>v || 0\<close> on an optional number: \<^verbatim>\<open>undefined\<close> (\<open>None\<close>), both zeros and NaN are falsy.
\<close>

definition orZero :: "jsnum option \<Rightarrow> jsnum" where
  "orZero v = (case v of None \<Rightarrow> Fin 0
               | Some x \<Rightarrow> if isZero x \<or> isNaN x then Fin 0 else x)"

text \<open>\<^verbatim>\<open>Math.PI\<close> is \<open>pi\<close>.\<close>

definition degToRad :: "jsnum \<Rightarrow> jsnum" where
  "degToRad deg = jdiv (jmul deg (Fin pi)) (Fin 180)"

definition radToDeg :: "jsnum \<Rightarrow> jsnum" where
  "radToDeg rad = jdiv (jmul rad (Fin 180)) (Fin pi)"

section \<open>parseFloat\<close>

text \<open>
  \<^verbatim>\<open>parseFloat(s)\<close>: skip leading white space, then read the longest prefix that is a
  decimal literal: an optional sign, then \<^verbatim>\<open>Infinity\<close>, or digits with an optional
  fraction and an optional exponent. NaN when there is no such prefix.
\<close>

definition digitVal :: "char \<Rightarrow> nat" where
  "digitVal c = of_char c - 48"

definition digitsVal :: "string \<Rightarrow> nat" where
  "digitsVal ds = fold (\<lambda>c n. 10 * n + digitVal c) ds 0"

text \<open>The exponent part \<^verbatim>\<open>e[+-]?\d+\<close> at the head of \<open>s\<close>, as a power of ten; 1 if there is none.\<close>

definition exponentPart :: "string \<Rightarrow> real" where
  "exponentPart s =
     (case s of
        e # r \<Rightarrow>
          if e = CHR ''e'' \<or> e = CHR ''E'' then
            (let (neg, r') = (case r of c # t \<Rightarrow> if c = CHR ''-'' then (True, t)
                                                   else if c = CHR ''+'' then (False, t)
                                                   else (False, r)
                                     | [] \<Rightarrow> (False, r));
                 ds = takeWhile isDigit r'
             in if ds = [] then 1
                else if neg then 1 / 10 ^ digitsVal ds else 10 ^ digitsVal ds)
          else 1
      | [] \<Rightarrow> 1)"

text \<open>The literal after the sign; \<open>neg\<close> says whether the sign was a minus.\<close>

definition strDecimalLiteral :: "bool \<Rightarrow> string \<Rightarrow> jsnum" where
  "strDecimalLiteral neg u =
     (if startsWith u ''Infinity'' then jsInf neg
      else
        (let ds = takeWhile isDigit u;
             r1 = dropWhile isDigit u;
             hasDot = (case r1 of c # _ \<Rightarrow> c = CHR ''.'' | [] \<Rightarrow> False);
             fs = (if hasDot then takeWhile isDigit (tl r1) else []);
             r2 = (if hasDot then dropWhile isDigit (tl r1) else r1)
         in if ds = [] \<and> fs = [] then NaN
            else jsFin ((real (digitsVal ds) + real (digitsVal fs) / 10 ^ length fs)
                        * exponentPart r2 * (if neg then - 1 else 1)) neg))"

definition parseFloat :: "string \<Rightarrow> jsnum" where
  "parseFloat s =
     (let t = trimStart s
      in case t of
           c # r \<Rightarrow> if c = CHR ''-'' then strDecimalLiteral True r
                    else if c = CHR ''+'' then strDecimalLiteral False r
                    else strDecimalLiteral False t
         | [] \<Rightarrow> strDecimalLiteral False t)"

section \<open>The field patterns of processCommand\<close>

text \<open>
  \<^verbatim>\<open>trimmedCommand.match(/X([-+]?\d*\.?\d+)/)\<close>: a regular expression without the global
  flag, so \<^verbatim>\<open>match\<close> returns the first (leftmost) match, and \<^verbatim>\<open>m[1]\<close> is the text of the
  group. The pattern is a sequence of one-character atoms, each with a greedy quantifier;
  \<open>backtrack\<close> is the backtracking matcher on such sequences. It returns the input that is
  left after the match that backtracking finds first.
\<close>

datatype atom = Lit char | OneOf string | DigitClass

datatype quant = One | Opt | Star | Plus

type_synonym regex = "(atom \<times> quant) list"

fun atomOk :: "atom \<Rightarrow> char \<Rightarrow> bool" where
  "atomOk (Lit c) x = (x = c)"
| "atomOk (OneOf cs) x = (x \<in> set cs)"
| "atomOk DigitClass x = isDigit x"

fun backtrack :: "regex \<Rightarrow> string \<Rightarrow> string option" where
  "backtrack [] s = Some s"
| "backtrack ((a, One) # ps) [] = None"
| "backtrack ((a, One) # ps) (c # cs) = (if atomOk a c then backtrack ps cs else None)"
| "backtrack ((a, Opt) # ps) [] = backtrack ps []"
| "backtrack ((a, Opt) # ps) (c # cs) =
     (if atomOk a c then
        (case backtrack ps cs of Some r \<Rightarrow> Some r | None \<Rightarrow> backtrack ps (c # cs))
      else backtrack ps (c # cs))"
| "backtrack ((a, Star) # ps) [] = backtrack ps []"
| "backtrack ((a, Star) # ps) (c # cs) =
     (if atomOk a c then
        (case backtrack ((a, Star) # ps) cs of Some r \<Rightarrow> Some r
         | None \<Rightarrow> backtrack ps (c # cs))
      else backtrack ps (c # cs))"
| "backtrack ((a, Plus) # ps) [] = None"
| "backtrack ((a, Plus) # ps) (c # cs) =
     (if atomOk a c then backtrack ((a, Star) # ps) cs else None)"

text \<open>The group \<^verbatim>\<open>([-+]?\d*\.?\d+)\<close>.\<close>

definition numberPattern :: regex where
  "numberPattern = [(OneOf ''-+'', Opt), (DigitClass, Star), (Lit CHR ''.'', Opt), (DigitClass, Plus)]"

text \<open>
  \<open>matchField L s\<close> is \<^verbatim>\<open>s.match(/L([-+]?\d*\.?\d+)/)\<close>: \<open>None\<close> for \<^verbatim>\<open>null\<close>, otherwise
  \<^verbatim>\<open>m[1]\<close>. The start positions are tried from left to right.
\<close>

fun matchField :: "char \<Rightarrow> string \<Rightarrow> string option" where
  "matchField L [] = None"
| "matchField L (c # cs) =
     (if c = L then
        (case backtrack numberPattern cs of
           Some rest \<Rightarrow> Some (take (length cs - length rest) cs)
         | None \<Rightarrow> matchField L cs)
      else matchField L cs)"

section \<open>Joint states\<close>

text \<open>
  \<^verbatim>\<open>interface JointState { [jointName: string]: number }\<close>: an object, modelled as an
  association list in the insertion order of its keys. \<open>map_of\<close> reads a key
  (\<open>None\<close> is \<^verbatim>\<open>undefined\<close>), \<open>AList.update\<close> assigns one, \<open>map fst\<close> is
  \<^verbatim>\<open>Object.keys\<close>.
\<close>

type_synonym JointState = "(string \<times> jsnum) list"

text \<open>\<^verbatim>\<open>{ ...prev, ...new }\<close>\<close>

definition spread :: "JointState \<Rightarrow> JointState \<Rightarrow> JointState" where
  "spread prev new = fold (\<lambda>(k, v). AList.update k v) new prev"

section \<open>Decoding: the parsing part of processCommand\<close>

text \<open>
  The body of the \<^verbatim>\<open>try\<close> block of \<^verbatim>\<open>processCommand\<close> up to the call of
  \<^verbatim>\<open>smoothMoveTo\<close>: the seven matches, the joints assigned in the order theta1 to theta6,
  and the feed rate, \<^verbatim>\<open>fMatch ? parseFloat(fMatch[1]) : 500\<close>. Nothing in the block throws.
\<close>

definition setJoint :: "string \<Rightarrow> string option \<Rightarrow> JointState \<Rightarrow> JointState" where
  "setJoint name m js =
     (case m of Some text \<Rightarrow> AList.update name (degToRad (parseFloat text)) js
      | None \<Rightarrow> js)"

definition parseJoints :: "string \<Rightarrow> JointState" where
  "parseJoints trimmedCommand =
     (let xMatch = matchField CHR ''X'' trimmedCommand;
          yMatch = matchField CHR ''Y'' trimmedCommand;
          zMatch = matchField CHR ''Z'' trimmedCommand;
          wMatch = matchField CHR ''W'' trimmedCommand;
          uMatch = matchField CHR ''U'' trimmedCommand;
          vMatch = matchField CHR ''V'' trimmedCommand
      in setJoint ''theta6'' vMatch
          (setJoint ''theta5'' uMatch
            (setJoint ''theta4'' wMatch
              (setJoint ''theta3'' zMatch
                (setJoint ''theta2'' yMatch
                  (setJoint ''theta1'' xMatch []))))))"

definition parseFeedRate :: "string \<Rightarrow> jsnum" where
  "parseFeedRate trimmedCommand =
     (case matchField CHR ''F'' trimmedCommand of
        Some text \<Rightarrow> parseFloat text
      | None \<Rightarrow> Fin 500)"

text \<open>
  What \<^verbatim>\<open>processCommand\<close> decides for a line: nothing at all for a blank line, a log entry
  only for a line that is not a \<^verbatim>\<open>G06\<close> command or names no joint, and otherwise the call
  \<^verbatim>\<open>smoothMoveTo(newJointStates, feedRate)\<close>.
\<close>

datatype decoded = Blank | Unrecognized string | Motion string JointState jsnum

definition decode :: "string \<Rightarrow> decoded" where
  "decode command =
     (let trimmedCommand = trim command
      in if trimmedCommand = [] then Blank
         else if startsWith trimmedCommand ''G06'' then
           (let newJointStates = parseJoints trimmedCommand;
                feedRate = parseFeedRate trimmedCommand
            in if length (map fst newJointStates) > 0
               then Motion trimmedCommand newJointStates feedRate
               else Unrecognized trimmedCommand)
         else Unrecognized trimmedCommand)"

section \<open>Encoding: toFixed and the command of sendJointStates\<close>

text \<open>
  The decimal digits of a natural number, most significant first. \<open>digitChar\<close> is only
  applied to numbers below 10.
\<close>

definition digitChar :: "nat \<Rightarrow> char" where
  "digitChar k = ''0123456789'' ! k"

fun digitsOf :: "nat \<Rightarrow> string" where
  "digitsOf n = (if n < 10 then [digitChar n] else digitsOf (n div 10) @ [digitChar (n mod 10)])"

declare digitsOf.simps [simp del]

text \<open>
  \<^verbatim>\<open>x.toFixed(f)\<close> (ECMAScript, Number.prototype.toFixed): a non-finite \<open>x\<close> is printed by
  name; otherwise the sign, then, for \<open>|x| < 10^21\<close>, the digits of the integer \<open>n\<close> nearest
  to \<open>|x| * 10^f\<close> (the larger one on a tie), padded with zeros to at least \<open>f + 1\<close> digits,
  with a point before the last \<open>f\<close> digits. From \<open>10^21\<close> on, the result is the number's
  ordinary string form in exponent notation, which depends on the digits of the double
  and is not modelled: it is the parameter \<open>big\<close>.
\<close>

definition padAndPoint :: "nat \<Rightarrow> string \<Rightarrow> string" where
  "padAndPoint f m0 =
     (let m1 = (if f \<noteq> 0 \<and> length m0 \<le> f
                then replicate (f + 1 - length m0) CHR ''0'' @ m0 else m0);
          k = length m1
      in if f \<noteq> 0 then take (k - f) m1 @ ''.'' @ drop (k - f) m1 else m1)"

definition toFixed :: "(real \<Rightarrow> string) \<Rightarrow> jsnum \<Rightarrow> nat \<Rightarrow> string" where
  "toFixed big x f =
     (case x of
        NaN \<Rightarrow> ''NaN''
      | PosInf \<Rightarrow> ''Infinity''
      | NegInf \<Rightarrow> ''-Infinity''
      | _ \<Rightarrow>
        (let r = mag x;
             s = (if r < 0 then ''-'' else []);
             a = \<bar>r\<bar>
         in if a \<ge> 10 ^ 21 then s @ big a
            else s @ padAndPoint f (digitsOf (nat \<lfloor>a * 10 ^ f + 1 / 2\<rfloor>))))"

text \<open>
  The command built by \<^verbatim>\<open>sendJointStates\<close>:
  \<^verbatim>\<open>`G06 X${radToDeg(jointStates.theta1 || 0).toFixed(1)} Y... V${...} F500\n`\<close>
\<close>

definition fieldText :: "(real \<Rightarrow> string) \<Rightarrow> JointState \<Rightarrow> string \<Rightarrow> string" where
  "fieldText big jointStates name = toFixed big (radToDeg (orZero (map_of jointStates name))) 1"

definition encodeCommand :: "(real \<Rightarrow> string) \<Rightarrow> JointState \<Rightarrow> string" where
  "encodeCommand big jointStates =
     ''G06 X'' @ fieldText big jointStates ''theta1'' @
     '' Y'' @ fieldText big jointStates ''theta2'' @
     '' Z'' @ fieldText big jointStates ''theta3'' @
     '' W'' @ fieldText big jointStates ''theta4'' @
     '' U'' @ fieldText big jointStates ''theta5'' @
     '' V'' @ fieldText big jointStates ''theta6'' @
     '' F500'' @ [newline]"

section \<open>The line reassembler of readSerialData\<close>

text \<open>
  The inner loop of \<^verbatim>\<open>readSerialData\<close>:
  \<^verbatim>\<open>
  while ((newlineIndex = buffer.indexOf('\n')) !== -1) {
    const command = buffer.substring(0, newlineIndex);
    buffer = buffer.substring(newlineIndex + 1);
    processCommand(command);
  }
  \<close>
  \<open>extractCommands buffer\<close> returns the commands handed to \<^verbatim>\<open>processCommand\<close>, in order,
  and the buffer the loop leaves behind. What \<^verbatim>\<open>processCommand\<close> does never touches
  the buffer, a local variable of \<^verbatim>\<open>readSerialData\<close>.
\<close>

function extractCommands :: "string \<Rightarrow> string list \<times> string" where
  "extractCommands buffer =
     (case indexOf newline buffer of
        None \<Rightarrow> ([], buffer)
      | Some newlineIndex \<Rightarrow>
          (let command = substring buffer 0 newlineIndex;
               buffer' = substringFrom buffer (newlineIndex + 1);
               (commands, rest) = extractCommands buffer'
           in (command # commands, rest)))"
  by pat_completeness auto

text \<open>The loop ends: each pass removes at least the terminator from the buffer.\<close>

termination extractCommands
proof (relation "measure length")
  show "wf (measure length)" by simp
next
  fix buffer :: string and newlineIndex command buffer'
  assume found: "indexOf newline buffer = Some newlineIndex"
    and rest: "buffer' = substringFrom buffer (newlineIndex + 1)"
  have "i < length s" if "indexOf c s = Some i" for c s i
    using that by (induction s arbitrary: i) (auto split: if_splits)
  from this [OF found] rest show "(buffer', buffer) \<in> measure length"
    by (simp add: substringFrom_def)
qed

declare extractCommands.simps [simp del]

text \<open>
  The outer loop: \<^verbatim>\<open>buffer += value\<close> for every chunk the reader delivers, then the
  inner loop. The list of chunks is what \<^verbatim>\<open>portReader.read()\<close> returns until
  \<^verbatim>\<open>done\<close>. The result is every command handed to \<^verbatim>\<open>processCommand\<close> and the final
  buffer.
\<close>

fun readChunks :: "string \<Rightarrow> string list \<Rightarrow> string list \<times> string" where
  "readChunks buffer [] = ([], buffer)"
| "readChunks buffer (v # vs) =
     (let (commands, buffer') = extractCommands (buffer @ v);
          (more, final) = readChunks buffer' vs
      in (commands @ more, final))"

text \<open>\<^verbatim>\<open>let buffer = ''\<close> before the loop.\<close>

definition readSerialData_lines :: "string list \<Rightarrow> string list \<times> string" where
  "readSerialData_lines chunks = readChunks [] chunks"

section \<open>The SerialConnection component\<close>

text \<open>
  \<^verbatim>\<open>SerialConnection\<close> is a React function component. Every render runs its body again:
  \<^verbatim>\<open>useState\<close> hands out the state of that render as constants, and the functions of the
  body (\<^verbatim>\<open>connectToSerial\<close>, \<^verbatim>\<open>smoothMoveTo\<close>, \<^verbatim>\<open>processCommand\<close>, \<^verbatim>\<open>readSerialData\<close>,
  \<^verbatim>\<open>sendOkResponse\<close>, ...) are closures over those constants. A setter such as
  \<^verbatim>\<open>setIsMoving\<close> changes the state that the next render sees; it never changes a
  constant of a render that has already run.

  A \<open>render\<close> holds the constants of one render that the functions read: the props
  \<^verbatim>\<open>jointStates\<close> and \<^verbatim>\<open>onDataReceived\<close> (is it given?), and the state. Each function of
  the component takes the render it belongs to as its first argument. The \<open>world\<close> holds
  \<open>latest\<close>, the state as the most recent render sees it (the prop \<^verbatim>\<open>jointStates\<close> is the
  state of the parent page), and everything that lives outside React's state: the log
  (only ever changed by \<^verbatim>\<open>setLog(prev => ...)\<close>), the running read loop with the render
  that started it and its local buffer, the callbacks waiting in
  \<^verbatim>\<open>requestAnimationFrame\<close> and in \<^verbatim>\<open>setTimeout\<close>, the release calls made on the
  transport, and the texts written to it.
\<close>

type_synonym handle = nat

record render =
  jointStates :: JointState
  onDataReceived :: bool
  port :: "handle option"
  isConnected :: bool
  reader :: "handle option"
  writer :: "handle option"
  isMoving :: bool
  isWebSerialSupported :: bool

datatype logEntry =
    LogNotSupported
  | LogConnected
  | LogConnectionFailed
  | LogMovementDuration jsnum jsnum jsnum
  | LogMovementCompleted
  | LogReceived string
  | LogMovingTo "string list" jsnum
  | LogDisconnected
  | LogDisconnectError
  | LogSentOk
  | LogSent string
  | LogSendError
  | LogNotConnected

text \<open>
  The animation callback \<^verbatim>\<open>animate\<close> of one call of \<^verbatim>\<open>smoothMoveTo\<close>, with what it closes
  over: the render of its \<^verbatim>\<open>smoothMoveTo\<close>, \<^verbatim>\<open>startStates\<close>, \<^verbatim>\<open>targetStates\<close>,
  \<^verbatim>\<open>startTime\<close> and \<^verbatim>\<open>duration\<close>.
\<close>

record trajectory =
  closureOf :: render
  startStatesOf :: JointState
  targetStatesOf :: JointState
  startTimeOf :: int
  durationOf :: jsnum

datatype call = PortOpen handle | ReaderCancel handle | WriterClose handle | PortClose handle

record world =
  latest :: render
  logLines :: "logEntry list"
  readLoop :: "(render \<times> string) option"
  frames :: "trajectory list"
  timers :: "(int \<times> render) list"
  calls :: "call list"
  written :: "string list"

text \<open>\<^verbatim>\<open>setLog(prev => [...prev.slice(-9), entry])\<close>; the time stamp is left out.\<close>

definition addToLog :: "logEntry \<Rightarrow> world \<Rightarrow> world" where
  "addToLog entry w =
     w\<lparr>logLines := drop (length (logLines w) - 9) (logLines w) @ [entry]\<rparr>"

subsection \<open>smoothMoveTo and animate\<close>

text \<open>
  \<^verbatim>\<open>smoothMoveTo(targetStates, feedRate)\<close> of render \<open>r\<close>, called when \<^verbatim>\<open>Date.now()\<close> is
  \<open>now\<close>. The guard and \<^verbatim>\<open>startStates\<close> read the constants \<^verbatim>\<open>isMoving\<close>, \<^verbatim>\<open>onDataReceived\<close>
  and \<^verbatim>\<open>jointStates\<close> of \<open>r\<close>; \<^verbatim>\<open>setIsMoving(true)\<close> writes the state.
\<close>

definition maxAngleDiffDeg :: "JointState \<Rightarrow> JointState \<Rightarrow> jsnum" where
  "maxAngleDiffDeg startStates targetStates =
     Math_max (map (\<lambda>joint.
        (let startRad = orZero (map_of startStates joint);
             targetRad = orZero (map_of targetStates joint)
         in jabs (jdiv (jmul (jsub targetRad startRad) (Fin 180)) (Fin pi))))
       (map fst targetStates))"

definition moveDuration :: "JointState \<Rightarrow> JointState \<Rightarrow> jsnum \<Rightarrow> jsnum" where
  "moveDuration startStates targetStates feedRate =
     (let durationMinutes = jdiv (maxAngleDiffDeg startStates targetStates) feedRate
      in jmax (Fin 100) (jmul (jmul durationMinutes (Fin 60)) (Fin 1000)))"

definition smoothMoveTo :: "render \<Rightarrow> int \<Rightarrow> JointState \<Rightarrow> jsnum \<Rightarrow> world \<Rightarrow> world" where
  "smoothMoveTo r now targetStates feedRate w =
     (if isMoving r \<or> \<not> onDataReceived r then w
      else
        (let w1 = w\<lparr>latest := (latest w)\<lparr>isMoving := True\<rparr>\<rparr>;
             startStates = jointStates r;
             startTime = now;
             duration = moveDuration startStates targetStates feedRate;
             w2 = addToLog (LogMovementDuration duration
                    (maxAngleDiffDeg startStates targetStates) feedRate) w1
         in w2\<lparr>frames := frames w2 @
              [\<lparr>closureOf = r, startStatesOf = startStates, targetStatesOf = targetStates,
                startTimeOf = startTime, durationOf = duration\<rparr>]\<rparr>))"

text \<open>
  \<^verbatim>\<open>progress = Math.min(elapsed / duration, 1)\<close> and the interpolated states of one frame.
\<close>

definition progressAt :: "trajectory \<Rightarrow> int \<Rightarrow> jsnum" where
  "progressAt a now = jmin (jdiv (Fin (real_of_int (now - startTimeOf a))) (durationOf a)) (Fin 1)"

definition currentStatesAt :: "trajectory \<Rightarrow> jsnum \<Rightarrow> JointState" where
  "currentStatesAt a progress =
     fold (\<lambda>joint currentStates.
        (let start = orZero (map_of (startStatesOf a) joint);
             target = orZero (map_of (targetStatesOf a) joint)
         in AList.update joint (jadd start (jmul (jsub target start) progress)) currentStates))
       (map fst (targetStatesOf a)) []"

text \<open>
  \<^verbatim>\<open>onDataReceived\<close> is \<^verbatim>\<open>handleSerialDataReceived\<close> of the page:
  \<^verbatim>\<open>setJointStates(prev => ({ ...prev, ...newJointStates }))\<close>.
\<close>

definition handleSerialDataReceived :: "JointState \<Rightarrow> world \<Rightarrow> world" where
  "handleSerialDataReceived newJointStates w =
     w\<lparr>latest := (latest w)\<lparr>jointStates := spread (jointStates (latest w)) newJointStates\<rparr>\<rparr>"

text \<open>
  One run of the callback \<^verbatim>\<open>animate\<close> when \<^verbatim>\<open>Date.now()\<close> is \<open>now\<close>: it either registers
  itself again or completes: \<^verbatim>\<open>setIsMoving(false)\<close>, the log entry, and
  \<^verbatim>\<open>setTimeout(() => sendOkResponse(), 50)\<close> with the \<^verbatim>\<open>sendOkResponse\<close> of its own render.
\<close>

definition animate :: "int \<Rightarrow> trajectory \<Rightarrow> world \<Rightarrow> world" where
  "animate now a w =
     (let progress = progressAt a now;
          w1 = handleSerialDataReceived (currentStatesAt a progress) w
      in if jlt progress (Fin 1) then w1\<lparr>frames := frames w1 @ [a]\<rparr>
         else
           (let w2 = w1\<lparr>latest := (latest w1)\<lparr>isMoving := False\<rparr>\<rparr>;
                w3 = addToLog LogMovementCompleted w2
            in w3\<lparr>timers := timers w3 @ [(now + 50, closureOf a)]\<rparr>))"

subsection \<open>sendOkResponse and sendJointStates\<close>

text \<open>
  Both read \<^verbatim>\<open>writer\<close> and \<^verbatim>\<open>isConnected\<close> of their render. \<open>writeOk\<close> says whether
  \<^verbatim>\<open>writer.write\<close> succeeds; a failure is caught and logged.
\<close>

definition sendOkResponse :: "render \<Rightarrow> bool \<Rightarrow> world \<Rightarrow> world" where
  "sendOkResponse r writeOk w =
     (if writer r = None \<or> \<not> isConnected r then w
      else if writeOk then addToLog LogSentOk (w\<lparr>written := written w @ [''Ok'' @ [newline]]\<rparr>)
      else addToLog LogSendError w)"

definition sendJointStates :: "(real \<Rightarrow> string) \<Rightarrow> render \<Rightarrow> bool \<Rightarrow> world \<Rightarrow> world" where
  "sendJointStates big r writeOk w =
     (if writer r = None \<or> \<not> isConnected r then addToLog LogNotConnected w
      else if writeOk then
        (let command = encodeCommand big (jointStates r)
         in addToLog (LogSent (trim command)) (w\<lparr>written := written w @ [command]\<rparr>))
      else addToLog LogSendError w)"

subsection \<open>processCommand and the read loop\<close>

definition movingToFields :: "string \<Rightarrow> string list" where
  "movingToFields trimmedCommand =
     map (\<lambda>L. case matchField L trimmedCommand of Some m \<Rightarrow> m | None \<Rightarrow> ''0'') ''XYZWUV''"

definition processCommand :: "render \<Rightarrow> int \<Rightarrow> string \<Rightarrow> world \<Rightarrow> world" where
  "processCommand r now command w =
     (case decode command of
        Blank \<Rightarrow> w
      | Unrecognized trimmedCommand \<Rightarrow> addToLog (LogReceived trimmedCommand) w
      | Motion trimmedCommand newJointStates feedRate \<Rightarrow>
          smoothMoveTo r now newJointStates feedRate
            (addToLog (LogMovingTo (movingToFields trimmedCommand) feedRate)
              (addToLog (LogReceived trimmedCommand) w)))"

text \<open>
  One pass of the loop of \<^verbatim>\<open>readSerialData\<close>: a chunk arrives when \<^verbatim>\<open>Date.now()\<close> is
  \<open>now\<close>. The loop calls the \<^verbatim>\<open>processCommand\<close> of the render that started it.
\<close>

definition onChunk :: "int \<Rightarrow> string \<Rightarrow> world \<Rightarrow> world" where
  "onChunk now chunk w =
     (case readLoop w of
        None \<Rightarrow> w
      | Some (r, buffer) \<Rightarrow>
          (let (commands, buffer') = extractCommands (buffer @ chunk)
           in fold (processCommand r now) commands (w\<lparr>readLoop := Some (r, buffer')\<rparr>)))"

subsection \<open>connectToSerial and disconnectSerial\<close>

text \<open>
  \<^verbatim>\<open>connectToSerial\<close> of render \<open>r\<close>. \<open>ok\<close> says whether \<^verbatim>\<open>requestPort\<close> and \<^verbatim>\<open>open\<close>
  succeed. \<^verbatim>\<open>readSerialData(portReader)\<close> is the function of render \<open>r\<close>: the loop it
  starts keeps \<open>r\<close>. (\<^verbatim>\<open>isConnecting\<close> is true only while the function runs.)
\<close>

definition connectToSerial :: "render \<Rightarrow> handle \<Rightarrow> bool \<Rightarrow> world \<Rightarrow> world" where
  "connectToSerial r selectedPort ok w =
     (if \<not> isWebSerialSupported r then addToLog LogNotSupported w
      else if ok then
        (let w1 = w\<lparr>calls := calls w @ [PortOpen selectedPort]\<rparr>;
             w2 = w1\<lparr>latest := (latest w1)\<lparr>port := Some selectedPort, isConnected := True\<rparr>\<rparr>;
             w3 = addToLog LogConnected w2;
             w4 = w3\<lparr>latest := (latest w3)\<lparr>reader := Some selectedPort,
                                              writer := Some selectedPort\<rparr>\<rparr>
         in w4\<lparr>readLoop := Some (r, [])\<rparr>)
      else addToLog LogConnectionFailed w)"

text \<open>
  \<^verbatim>\<open>disconnectSerial\<close> of render \<open>r\<close>: three releases inside one \<^verbatim>\<open>try\<close> block.
  \<open>cancelOk\<close>, \<open>writerCloseOk\<close> and \<open>portCloseOk\<close> say whether \<^verbatim>\<open>reader.cancel()\<close>,
  \<^verbatim>\<open>writer.close()\<close> and \<^verbatim>\<open>port.close()\<close> succeed when they are called; a call that fails
  throws, and control goes to the \<^verbatim>\<open>catch\<close> block (\<open>Inl\<close>). A reader that is cancelled
  ends the read loop: its pending \<^verbatim>\<open>read()\<close> returns \<^verbatim>\<open>done\<close>.
\<close>

definition releaseReader :: "render \<Rightarrow> bool \<Rightarrow> world \<Rightarrow> world + world" where
  "releaseReader r cancelOk w =
     (case reader r of
        None \<Rightarrow> Inr w
      | Some h \<Rightarrow>
          (let w1 = w\<lparr>calls := calls w @ [ReaderCancel h]\<rparr>
           in if cancelOk
              then Inr (w1\<lparr>latest := (latest w1)\<lparr>reader := None\<rparr>, readLoop := None\<rparr>)
              else Inl w1))"

definition releaseWriter :: "render \<Rightarrow> bool \<Rightarrow> world \<Rightarrow> world + world" where
  "releaseWriter r writerCloseOk w =
     (case writer r of
        None \<Rightarrow> Inr w
      | Some h \<Rightarrow>
          (let w1 = w\<lparr>calls := calls w @ [WriterClose h]\<rparr>
           in if writerCloseOk then Inr (w1\<lparr>latest := (latest w1)\<lparr>writer := None\<rparr>\<rparr>)
              else Inl w1))"

definition releasePort :: "render \<Rightarrow> bool \<Rightarrow> world \<Rightarrow> world + world" where
  "releasePort r portCloseOk w =
     (case port r of
        None \<Rightarrow> Inr w
      | Some h \<Rightarrow>
          (let w1 = w\<lparr>calls := calls w @ [PortClose h]\<rparr>
           in if portCloseOk then Inr (w1\<lparr>latest := (latest w1)\<lparr>port := None\<rparr>\<rparr>)
              else Inl w1))"

definition disconnectSerial :: "render \<Rightarrow> bool \<Rightarrow> bool \<Rightarrow> bool \<Rightarrow> world \<Rightarrow> world" where
  "disconnectSerial r cancelOk writerCloseOk portCloseOk w =
     (case releaseReader r cancelOk w of
        Inl e \<Rightarrow> addToLog LogDisconnectError e
      | Inr w1 \<Rightarrow>
          (case releaseWriter r writerCloseOk w1 of
             Inl e \<Rightarrow> addToLog LogDisconnectError e
           | Inr w2 \<Rightarrow>
               (case releasePort r portCloseOk w2 of
                  Inl e \<Rightarrow> addToLog LogDisconnectError e
                | Inr w3 \<Rightarrow>
                    addToLog LogDisconnected
                      (w3\<lparr>latest := (latest w3)\<lparr>isConnected := False\<rparr>\<rparr>))))"

subsection \<open>Events\<close>

text \<open>
  What can happen to the component. The buttons call the functions of the latest render,
  and the page shows them as the JSX says: Connect only while \<^verbatim>\<open>!isConnected\<close>, Disconnect
  only while \<^verbatim>\<open>isConnected\<close>, Send disabled while \<^verbatim>\<open>!isConnected\<close>. A frame runs the callbacks
  registered with \<^verbatim>\<open>requestAnimationFrame\<close> so far; \<open>Timers now\<close> runs the time-outs that
  are due. \<open>JointChange\<close> is \<^verbatim>\<open>handleJointChange\<close> of the page (a slider of JointControls).
\<close>

datatype event =
    ClickConnect handle bool
  | ClickDisconnect bool bool bool
  | ClickSend bool
  | Chunk int string
  | Frame int
  | Timers int bool
  | JointChange string jsnum

definition runFrame :: "int \<Rightarrow> world \<Rightarrow> world" where
  "runFrame now w = fold (animate now) (frames w) (w\<lparr>frames := []\<rparr>)"

definition runTimers :: "int \<Rightarrow> bool \<Rightarrow> world \<Rightarrow> world" where
  "runTimers now writeOk w =
     fold (\<lambda>(due, r). sendOkResponse r writeOk) (filter (\<lambda>(due, r). due \<le> now) (timers w))
       (w\<lparr>timers := filter (\<lambda>(due, r). \<not> due \<le> now) (timers w)\<rparr>)"

fun step :: "(real \<Rightarrow> string) \<Rightarrow> event \<Rightarrow> world \<Rightarrow> world" where
  "step big (ClickConnect selectedPort ok) w =
     (if \<not> isConnected (latest w) then connectToSerial (latest w) selectedPort ok w else w)"
| "step big (ClickDisconnect cancelOk writerCloseOk portCloseOk) w =
     (if isConnected (latest w)
      then disconnectSerial (latest w) cancelOk writerCloseOk portCloseOk w else w)"
| "step big (ClickSend writeOk) w =
     (if isConnected (latest w) then sendJointStates big (latest w) writeOk w else w)"
| "step big (Chunk now chunk) w = onChunk now chunk w"
| "step big (Frame now) w = runFrame now w"
| "step big (Timers now writeOk) w = runTimers now writeOk w"
| "step big (JointChange jointName v) w =
     w\<lparr>latest := (latest w)\<lparr>jointStates := AList.update jointName v (jointStates (latest w))\<rparr>\<rparr>"

definition run :: "(real \<Rightarrow> string) \<Rightarrow> event list \<Rightarrow> world \<Rightarrow> world" where
  "run big events w = fold (step big) events w"

text \<open>
  The page before anything happens: all six joints at 0 (\<^verbatim>\<open>useState\<close> of the page and
  of the component), nothing connected, nothing moving.
\<close>

definition initialJointStates :: JointState where
  "initialJointStates =
     [(''theta1'', Fin 0), (''theta2'', Fin 0), (''theta3'', Fin 0),
      (''theta4'', Fin 0), (''theta5'', Fin 0), (''theta6'', Fin 0)]"

definition initialRender :: render where
  "initialRender =
     \<lparr>jointStates = initialJointStates, onDataReceived = True, port = None,
      isConnected = False, reader = None, writer = None, isMoving = False,
      isWebSerialSupported = True\<rparr>"

definition initialWorld :: world where
  "initialWorld =
     \<lparr>latest = initialRender, logLines = [], readLoop = None, frames = [], timers = [],
      calls = [], written = []\<rparr>"

section \<open>Vocabulary of the statements\<close>

text \<open>
  The text of a number as the field pattern reads it: a sign (none, minus or plus),
  digits, and a fraction of digits after a point (\<open>fs = []\<close>: no point). One of the two
  digit strings is not empty. \<open>numberValue\<close> is the number it denotes.
\<close>

definition allDigits :: "string \<Rightarrow> bool" where
  "allDigits ds \<longleftrightarrow> list_all isDigit ds"

definition isSign :: "string \<Rightarrow> bool" where
  "isSign sg \<longleftrightarrow> sg \<in> set [[], ''-'', ''+'']"

definition numberText :: "string \<Rightarrow> string \<Rightarrow> string \<Rightarrow> string" where
  "numberText sg ds fs = sg @ ds @ (if fs = [] then [] else CHR ''.'' # fs)"

definition isNumberText :: "string \<Rightarrow> string \<Rightarrow> string \<Rightarrow> bool" where
  "isNumberText sg ds fs \<longleftrightarrow>
     isSign sg \<and> allDigits ds \<and> allDigits fs \<and> (ds \<noteq> [] \<or> fs \<noteq> [])"

definition numberValue :: "string \<Rightarrow> string \<Rightarrow> string \<Rightarrow> real" where
  "numberValue sg ds fs =
     (real (digitsVal ds) + real (digitsVal fs) / 10 ^ length fs) * (if sg = ''-'' then - 1 else 1)"

text \<open>
  The text \<open>rest\<close> that follows a number does not continue it: it does not start with a
  digit, nor, after a number without a fraction, with a point and a digit.
\<close>

definition endsNumber :: "string \<Rightarrow> string \<Rightarrow> bool" where
  "endsNumber fs rest =
     (case rest of
        [] \<Rightarrow> True
      | c # t \<Rightarrow> \<not> isDigit c \<and>
          (if c = CHR ''.'' \<and> fs = [] then (case t of [] \<Rightarrow> True | d # _ \<Rightarrow> \<not> isDigit d)
           else True))"

text \<open>
  No occurrence of the letter \<open>L\<close> in the text is followed by a character that can start
  a number.
\<close>

fun noNumberAfter :: "char \<Rightarrow> string \<Rightarrow> bool" where
  "noNumberAfter L [] = True"
| "noNumberAfter L [c] = True"
| "noNumberAfter L (c # d # s) =
     ((if c = L then d \<notin> set ''+-.0123456789'' else True) \<and> noNumberAfter L (d # s))"

text \<open>A character that no atom of the number pattern accepts.\<close>

definition plainLetter :: "char \<Rightarrow> bool" where
  "plainLetter L \<longleftrightarrow> L \<notin> set ''+-.0123456789''"

text \<open>The joint that a field letter of the protocol sets.\<close>

definition jointOfLetter :: "char \<Rightarrow> string" where
  "jointOfLetter L =
     (if L = CHR ''X'' then ''theta1'' else if L = CHR ''Y'' then ''theta2''
      else if L = CHR ''Z'' then ''theta3'' else if L = CHR ''W'' then ''theta4''
      else if L = CHR ''U'' then ''theta5'' else ''theta6'')"

text \<open>
  Finite numbers; the six joints (the \<^verbatim>\<open>jointNames\<close> of JointControls); the angle of a
  joint in wire units, degrees, as \<^verbatim>\<open>sendJointStates\<close> computes it,
  \<^verbatim>\<open>radToDeg(jointStates[name] || 0)\<close>; and the states that \<^verbatim>\<open>toFixed\<close> prints in fixed
  notation: the joint is absent or a finite number, below \<open>10^21\<close> degrees in magnitude.
\<close>

definition isFinite :: "jsnum \<Rightarrow> bool" where
  "isFinite x \<longleftrightarrow> \<not> isNaN x \<and> \<not> isInf x"

definition jointNames :: "string list" where
  "jointNames = [''theta1'', ''theta2'', ''theta3'', ''theta4'', ''theta5'', ''theta6'']"

definition wireDegrees :: "JointState \<Rightarrow> string \<Rightarrow> real" where
  "wireDegrees js name = mag (radToDeg (orZero (map_of js name)))"

definition inRange :: "JointState \<Rightarrow> string \<Rightarrow> bool" where
  "inRange js name \<longleftrightarrow> isFinite (orZero (map_of js name)) \<and> \<bar>wireDegrees js name\<bar> < 10 ^ 21"

text \<open>The text of a number with a fraction, as \<^verbatim>\<open>toFixed(1)\<close> prints it.\<close>

definition fieldForm :: "string \<Rightarrow> bool" where
  "fieldForm n \<longleftrightarrow> (\<exists>sg ds fs. n = numberText sg ds fs \<and> isNumberText sg ds fs \<and> fs \<noteq> [])"






text \<open>
  The worlds of the examples. \<open>connectedWorld\<close>: the page after Connect was clicked and
  port 1 was opened; the read loop belongs to \<open>initialRender\<close>, the render whose
  \<^verbatim>\<open>connectToSerial\<close> ran. \<open>movingWorld\<close>: after the line \<^verbatim>\<open>G06 X90 F500\<close> arrived at time 0.
  \<open>halfwayWorld\<close>: after a frame at time 5400. \<open>droppedWorld\<close>: after Disconnect was
  clicked in \<open>halfwayWorld\<close> and all three releases succeeded.
\<close>

definition exampleTrajectory :: trajectory where
  "exampleTrajectory =
     \<lparr>closureOf = initialRender, startStatesOf = initialJointStates,
      targetStatesOf = [(''theta1'', Fin (pi / 2))], startTimeOf = 0, durationOf = Fin 10800\<rparr>"

definition connectedRender :: render where
  "connectedRender =
     initialRender\<lparr>port := Some 1, isConnected := True, reader := Some 1, writer := Some 1\<rparr>"

definition connectedWorld :: world where
  "connectedWorld =
     \<lparr>latest = connectedRender, logLines = [LogConnected],
      readLoop = Some (initialRender, []), frames = [], timers = [],
      calls = [PortOpen 1], written = []\<rparr>"

definition movingLog :: "logEntry list" where
  "movingLog =
     [LogConnected, LogReceived ''G06 X90 F500'',
      LogMovingTo [''90'', ''0'', ''0'', ''0'', ''0'', ''0''] (Fin 500),
      LogMovementDuration (Fin 10800) (Fin 90) (Fin 500)]"

definition movingWorld :: world where
  "movingWorld =
     \<lparr>latest = connectedRender\<lparr>isMoving := True\<rparr>, logLines = movingLog,
      readLoop = Some (initialRender, []), frames = [exampleTrajectory], timers = [],
      calls = [PortOpen 1], written = []\<rparr>"

definition halfwayJointStates :: JointState where
  "halfwayJointStates =
     [(''theta1'', Fin (pi / 4)), (''theta2'', Fin 0), (''theta3'', Fin 0),
      (''theta4'', Fin 0), (''theta5'', Fin 0), (''theta6'', Fin 0)]"

definition halfwayWorld :: world where
  "halfwayWorld =
     movingWorld\<lparr>latest := connectedRender\<lparr>isMoving := True, jointStates := halfwayJointStates\<rparr>\<rparr>"

definition droppedWorld :: world where
  "droppedWorld =
     \<lparr>latest = initialRender\<lparr>isMoving := True, jointStates := halfwayJointStates\<rparr>,
      logLines = movingLog @ [LogDisconnected],
      readLoop = None, frames = [exampleTrajectory], timers = [],
      calls = [PortOpen 1, ReaderCancel 1, WriterClose 1, PortClose 1], written = []\<rparr>"

text \<open>
  A frame at time \<open>now\<close> completes a trajectory when its progress is not below 1: the
  \<^verbatim>\<open>else\<close> branch of \<^verbatim>\<open>animate\<close>.
\<close>

definition completes :: "int \<Rightarrow> trajectory \<Rightarrow> bool" where
  "completes now a \<longleftrightarrow> \<not> jlt (progressAt a now) (Fin 1)"

definition okLine :: string where
  "okLine = ''Ok'' @ [newline]"

section \<open>Properties of the line reassembler\<close>

lemma indexOf_None: "c \<notin> set s \<Longrightarrow> indexOf c s = None"
  by (induction s) auto

lemma indexOf_first: "c \<notin> set l \<Longrightarrow> indexOf c (l @ c # r) = Some (length l)"
  by (induction l) auto

lemma extractCommands_no_newline:
  "newline \<notin> set t \<Longrightarrow> extractCommands t = ([], t)"
  by (simp add: extractCommands.simps indexOf_None)

lemma extractCommands_line:
  "newline \<notin> set l \<Longrightarrow>
   extractCommands (l @ newline # r) =
     (l # fst (extractCommands r), snd (extractCommands r))"
  by (subst extractCommands.simps)
     (simp add: indexOf_first substring_def substringFrom_def split: prod.splits)

lemma extractCommands_lines:
  "\<forall>l \<in> set ls. newline \<notin> set l \<Longrightarrow> newline \<notin> set t \<Longrightarrow>
   extractCommands (concat (map (\<lambda>l. l @ [newline]) ls) @ t) = (ls, t)"
  by (induction ls) (simp_all add: extractCommands_no_newline extractCommands_line)

lemma extractCommands_append:
  "extractCommands (b @ v) =
     (fst (extractCommands b) @ fst (extractCommands (snd (extractCommands b) @ v)),
      snd (extractCommands (snd (extractCommands b) @ v)))"
proof (induction b rule: extractCommands.induct)
  case (1 buffer)
  show ?case
  proof (cases "indexOf newline buffer")
    case None
    then show ?thesis
      by (simp add: extractCommands.simps [of buffer])
  next
    case (Some i)
    then obtain l r where split: "buffer = l @ newline # r" and l: "newline \<notin> set l"
      and i: "i = length l"
    proof (induction buffer arbitrary: i thesis)
      case Nil
      then show ?case by simp
    next
      case (Cons x xs)
      show ?case
      proof (cases "x = newline")
        case True
        with Cons.prems show ?thesis by (auto intro: Cons.prems(1) [of "[]" xs])
      next
        case False
        with Cons.prems(2) obtain j where j: "indexOf newline xs = Some j" and "i = Suc j"
          by auto
        from Cons.IH [OF _ j] obtain l r where "xs = l @ newline # r" "newline \<notin> set l"
          "j = length l" by blast
        with False \<open>i = Suc j\<close> show ?thesis
          by (intro Cons.prems(1) [of "x # l" r]) auto
      qed
    qed
    have r: "substringFrom buffer (i + 1) = r"
      by (simp add: split i substringFrom_def)
    have IH: "extractCommands (r @ v) =
      (fst (extractCommands r) @ fst (extractCommands (snd (extractCommands r) @ v)),
       snd (extractCommands (snd (extractCommands r) @ v)))"
      using "1.IH" [OF Some refl refl] r by simp
    have "extractCommands (buffer @ v) =
      (l # fst (extractCommands (r @ v)), snd (extractCommands (r @ v)))"
      using extractCommands_line [OF l, of "r @ v"] by (simp add: split)
    moreover have "extractCommands buffer =
      (l # fst (extractCommands r), snd (extractCommands r))"
      using extractCommands_line [OF l, of r] by (simp add: split)
    ultimately show ?thesis
      using IH by simp
  qed
qed

lemma indexOf_Some_set: "indexOf c s = None \<Longrightarrow> c \<notin> set s"
  by (induction s) (auto split: if_splits)

lemma extractCommands_rest: "newline \<notin> set (snd (extractCommands s))"
proof (induction s rule: extractCommands.induct)
  case (1 buffer)
  show ?case
  proof (cases "indexOf newline buffer")
    case None
    then show ?thesis
      by (simp add: extractCommands.simps [of buffer] indexOf_Some_set)
  next
    case (Some i)
    with "1.IH" [OF Some refl refl] show ?thesis
      by (auto simp: extractCommands.simps [of buffer] split: prod.splits)
  qed
qed

lemma readChunks_extractCommands:
  "newline \<notin> set b \<Longrightarrow> readChunks b chunks = extractCommands (b @ concat chunks)"
proof (induction chunks arbitrary: b)
  case Nil
  then show ?case
    by (simp add: extractCommands_no_newline)
next
  case (Cons v vs)
  have app: "extractCommands ((b @ v) @ concat vs) =
    (fst (extractCommands (b @ v)) @
       fst (extractCommands (snd (extractCommands (b @ v)) @ concat vs)),
     snd (extractCommands (snd (extractCommands (b @ v)) @ concat vs)))"
    by (rule extractCommands_append)
  have "readChunks (snd (extractCommands (b @ v))) vs =
    extractCommands (snd (extractCommands (b @ v)) @ concat vs)"
    by (rule Cons.IH) (rule extractCommands_rest)
  with app show ?case
    by (cases "extractCommands (b @ v)"; cases "extractCommands (snd (extractCommands (b @ v)) @ concat vs)")
       simp
qed

text \<open>
  C1. Take any complete lines \<open>ls\<close> (none contains the terminator) followed by a trailing
  text \<open>t\<close> without terminator, and cut the bytes \<open>l\<^sub>1 \n l\<^sub>2 \n ... t\<close> into chunks in any
  way at all. Feeding the chunks in order hands exactly \<open>ls\<close>, in order, to
  \<^verbatim>\<open>processCommand\<close>; the trailing text \<open>t\<close> stays in the buffer and is not handed on.
\<close>

theorem reassembler_chunking_invariant:
  assumes "\<forall>l \<in> set ls. newline \<notin> set l"
    and "newline \<notin> set t"
    and "concat chunks = concat (map (\<lambda>l. l @ [newline]) ls) @ t"
  shows "readSerialData_lines chunks = (ls, t)"
  using assms
  by (simp add: readSerialData_lines_def readChunks_extractCommands extractCommands_lines)

theorem reassembler_chunking_invariant_witness:
  "readSerialData_lines
     [''G06 '', ''X1'' @ [newline] @ ''G0'', ''6 Y2'', [newline] @ ''G'', [], ''06'']
   = ([''G06 X1'', ''G06 Y2''], ''G06'')"
  using reassembler_chunking_invariant
    [of "[''G06 X1'', ''G06 Y2'']" "''G06''"
        "[''G06 '', ''X1'' @ [newline] @ ''G0'', ''6 Y2'', [newline] @ ''G'', [], ''06'']"]
  by (simp add: newline_def)

section \<open>Properties of the field patterns and of parseFloat\<close>

lemma backtrack_stop:
  "\<forall>(a, q) \<in> set p. \<not> atomOk a L \<Longrightarrow>
   backtrack p (cs @ L # r) = map_option (\<lambda>x. x @ L # r) (backtrack p cs)"
  by (induction p cs rule: backtrack.induct) (auto split: option.splits)

lemma numberPattern_plain:
  "plainLetter L \<Longrightarrow> \<forall>(a, q) \<in> set numberPattern. \<not> atomOk a L"
  by (auto simp: plainLetter_def numberPattern_def isDigit_def)

lemma matchField_skip:
  "plainLetter L \<Longrightarrow> matchField L pre = None \<Longrightarrow>
   matchField L (pre @ L # r) = matchField L (L # r)"
proof (induction pre)
  case Nil
  then show ?case by simp
next
  case (Cons c cs)
  show ?case
  proof (cases "c = L")
    case True
    with Cons.prems have bt: "backtrack numberPattern cs = None" and rest: "matchField L cs = None"
      by (auto split: option.splits)
    have "backtrack numberPattern (cs @ L # r) = None"
      using backtrack_stop [OF numberPattern_plain [OF Cons.prems(1)], of cs r] bt by simp
    with True Cons.IH [OF Cons.prems(1) rest] show ?thesis by simp
  next
    case False
    with Cons show ?thesis by simp
  qed
qed

lemma matchField_absent: "L \<notin> set s \<Longrightarrow> matchField L s = None"
  by (induction s) auto

lemma star_digits:
  "allDigits fs \<Longrightarrow> (case rest of [] \<Rightarrow> True | c # _ \<Rightarrow> \<not> isDigit c) \<Longrightarrow>
   backtrack [(DigitClass, Star)] (fs @ rest) = Some rest"
  by (induction fs) (auto simp: allDigits_def split: list.splits)

lemma plus_digits:
  "allDigits fs \<Longrightarrow> fs \<noteq> [] \<Longrightarrow> (case rest of [] \<Rightarrow> True | c # _ \<Rightarrow> \<not> isDigit c) \<Longrightarrow>
   backtrack [(DigitClass, Plus)] (fs @ rest) = Some rest"
  using star_digits [of "tl fs" rest]
  by (cases fs) (auto simp: allDigits_def)

lemma not_digit_dot [simp]: "\<not> isDigit CHR ''.''"
  by (simp add: isDigit_def)

lemma fraction_match:
  "allDigits ds \<Longrightarrow> allDigits fs \<Longrightarrow> fs \<noteq> [] \<Longrightarrow>
   (case rest of [] \<Rightarrow> True | c # _ \<Rightarrow> \<not> isDigit c) \<Longrightarrow>
   backtrack [(DigitClass, Star), (Lit CHR ''.'', Opt), (DigitClass, Plus)]
     (ds @ CHR ''.'' # fs @ rest) = Some rest"
proof (induction ds)
  case Nil
  then show ?case
    using plus_digits [of fs rest] by simp
next
  case (Cons d ds)
  then show ?case by (simp add: allDigits_def)
qed

lemma tail_fails:
  "endsNumber [] rest \<Longrightarrow>
   backtrack [(Lit CHR ''.'', Opt), (DigitClass, Plus)] rest = None"
  by (cases rest) (auto simp: endsNumber_def split: list.splits if_splits)

lemma star_tail_fails:
  "endsNumber [] rest \<Longrightarrow>
   backtrack [(DigitClass, Star), (Lit CHR ''.'', Opt), (DigitClass, Plus)] rest = None"
  using tail_fails [of rest]
  by (cases rest) (auto simp: endsNumber_def split: list.splits if_splits)

lemma integer_match:
  "allDigits ds \<Longrightarrow> ds \<noteq> [] \<Longrightarrow> endsNumber [] rest \<Longrightarrow>
   backtrack [(DigitClass, Star), (Lit CHR ''.'', Opt), (DigitClass, Plus)] (ds @ rest) = Some rest"
proof (induction ds)
  case Nil
  then show ?case by simp
next
  case (Cons d ds)
  show ?case
  proof (cases "ds = []")
    case True
    have d: "isDigit d" using Cons.prems(1) by (simp add: allDigits_def)
    have stop: "(case rest of [] \<Rightarrow> True | c # _ \<Rightarrow> \<not> isDigit c)"
      using Cons.prems(3) by (auto simp: endsNumber_def split: list.splits)
    have "backtrack [(DigitClass, Star)] ([] @ rest) = Some rest"
      by (rule star_digits) (use stop in \<open>simp_all add: allDigits_def\<close>)
    moreover have "d \<noteq> CHR ''.''" using d by auto
    ultimately show ?thesis
      using True d star_tail_fails [OF Cons.prems(3)] by simp
  next
    case False
    with Cons show ?thesis by (simp add: allDigits_def)
  qed
qed

lemma body_match:
  assumes "allDigits ds" "allDigits fs" "ds \<noteq> [] \<or> fs \<noteq> []" "endsNumber fs rest"
  shows "backtrack [(DigitClass, Star), (Lit CHR ''.'', Opt), (DigitClass, Plus)]
     (ds @ (if fs = [] then [] else CHR ''.'' # fs) @ rest) = Some rest"
proof (cases "fs = []")
  case True
  with assms integer_match [of ds rest] show ?thesis by simp
next
  case False
  have "(case rest of [] \<Rightarrow> True | c # _ \<Rightarrow> \<not> isDigit c)"
    using assms(4) by (auto simp: endsNumber_def split: list.splits)
  with False assms fraction_match [of ds fs rest] show ?thesis by simp
qed

lemma number_match:
  assumes "isNumberText sg ds fs" "endsNumber fs rest"
  shows "backtrack numberPattern (numberText sg ds fs @ rest) = Some rest"
proof -
  let ?body = "ds @ (if fs = [] then [] else CHR ''.'' # fs) @ rest"
  have body: "backtrack [(DigitClass, Star), (Lit CHR ''.'', Opt), (DigitClass, Plus)] ?body = Some rest"
    using assms by (intro body_match) (auto simp: isNumberText_def)
  have hd: "\<exists>c t. ?body = c # t \<and> c \<notin> set ''-+''"
  proof (cases ds)
    case Nil
    with assms(1) show ?thesis by (auto simp: isNumberText_def)
  next
    case (Cons d ds')
    with assms(1) show ?thesis by (auto simp: isNumberText_def allDigits_def isDigit_def)
  qed
  from assms(1) consider "sg = []" | "sg = ''-''" | "sg = ''+''"
    by (auto simp: isNumberText_def isSign_def)
  then show ?thesis
  proof cases
    case 1
    from hd obtain c t where ct: "?body = c # t" "c \<notin> set ''-+''" by blast
    have "backtrack numberPattern (c # t) = Some rest"
      using body ct by (simp add: numberPattern_def)
    with 1 ct show ?thesis by (simp add: numberText_def)
  next
    case 2
    with body show ?thesis by (simp add: numberText_def numberPattern_def)
  next
    case 3
    with body show ?thesis by (simp add: numberText_def numberPattern_def)
  qed
qed

lemma matchField_first:
  assumes "plainLetter L" "matchField L pre = None" "isNumberText sg ds fs" "endsNumber fs rest"
  shows "matchField L (pre @ L # numberText sg ds fs @ rest) = Some (numberText sg ds fs)"
  using matchField_skip [OF assms(1,2), of "numberText sg ds fs @ rest"]
    number_match [OF assms(3,4)]
  by simp

lemma takeWhile_digits:
  "allDigits ds \<Longrightarrow> (case r of [] \<Rightarrow> True | c # _ \<Rightarrow> \<not> isDigit c) \<Longrightarrow>
   takeWhile isDigit (ds @ r) = ds \<and> dropWhile isDigit (ds @ r) = r"
  by (induction ds) (auto simp: allDigits_def split: list.splits)

lemma exponentPart_Nil: "exponentPart [] = 1"
  by (simp add: exponentPart_def)

lemma strDecimalLiteral_digits:
  assumes "allDigits ds" "allDigits fs" "ds \<noteq> [] \<or> fs \<noteq> []"
  shows "strDecimalLiteral neg (ds @ (if fs = [] then [] else CHR ''.'' # fs)) =
    jsFin ((real (digitsVal ds) + real (digitsVal fs) / 10 ^ length fs) * (if neg then - 1 else 1)) neg"
proof -
  define u where "u = ds @ (if fs = [] then [] else CHR ''.'' # fs)"
  have t: "takeWhile isDigit u = ds" "dropWhile isDigit u = (if fs = [] then [] else CHR ''.'' # fs)"
    using takeWhile_digits [OF assms(1), of "if fs = [] then [] else CHR ''.'' # fs"]
    by (auto simp: isDigit_def u_def)
  have f: "takeWhile isDigit fs = fs" "dropWhile isDigit fs = []"
    using takeWhile_digits [OF assms(2), of "[]"] by auto
  have "\<exists>c t. u = c # t \<and> c \<noteq> CHR ''I''"
    using assms by (cases ds) (auto simp: allDigits_def isDigit_def u_def)
  then have i: "\<not> startsWith u ''Infinity''"
    by (auto simp: startsWith_def)
  show ?thesis
    unfolding u_def [symmetric] strDecimalLiteral_def
    using assms(3) by (simp add: t f i exponentPart_Nil)
qed

lemma parseFloat_numberText:
  assumes "isNumberText sg ds fs"
  shows "parseFloat (numberText sg ds fs) = jsFin (numberValue sg ds fs) (sg = ''-'')"
proof -
  define u where "u = ds @ (if fs = [] then [] else CHR ''.'' # fs)"
  have a: "allDigits ds" "allDigits fs" "ds \<noteq> [] \<or> fs \<noteq> []"
    using assms by (auto simp: isNumberText_def)
  have lit: "strDecimalLiteral neg u =
    jsFin ((real (digitsVal ds) + real (digitsVal fs) / 10 ^ length fs) * (if neg then - 1 else 1)) neg"
    for neg unfolding u_def by (rule strDecimalLiteral_digits [OF a])
  have "\<exists>c t. u = c # t \<and> \<not> isWhiteSpace c \<and> c \<noteq> CHR ''-'' \<and> c \<noteq> CHR ''+''"
    using a by (cases ds) (auto simp: allDigits_def isDigit_def isWhiteSpace_def u_def)
  then obtain c t where ct: "u = c # t" "\<not> isWhiteSpace c" "c \<noteq> CHR ''-''" "c \<noteq> CHR ''+''"
    by blast
  have plain: "parseFloat u = strDecimalLiteral False u"
    using ct(2-4) unfolding ct(1) by (simp add: parseFloat_def trimStart_def)
  have minus: "parseFloat (CHR ''-'' # u) = strDecimalLiteral True u"
    by (simp add: parseFloat_def trimStart_def isWhiteSpace_def)
  have plus: "parseFloat (CHR ''+'' # u) = strDecimalLiteral False u"
    by (simp add: parseFloat_def trimStart_def isWhiteSpace_def)
  have n: "numberText sg ds fs = sg @ u"
    by (simp add: numberText_def u_def)
  from assms consider "sg = []" | "sg = ''-''" | "sg = ''+''"
    by (auto simp: isNumberText_def isSign_def)
  then show ?thesis
    unfolding n by cases (simp_all add: plain minus plus lit numberValue_def)
qed

lemma setJoint_lookup:
  "map_of (setJoint name m js) k =
     (if k = name \<and> m \<noteq> None then map_option (\<lambda>t. degToRad (parseFloat t)) m else map_of js k)"
  by (cases m) (simp_all add: setJoint_def update_conv')

lemma parseJoints_lookup:
  assumes "L \<in> set ''XYZWUV''"
  shows "map_of (parseJoints t) (jointOfLetter L) =
     map_option (\<lambda>m. degToRad (parseFloat m)) (matchField L t)"
proof -
  from assms consider "L = CHR ''X''" | "L = CHR ''Y''" | "L = CHR ''Z''" | "L = CHR ''W''"
    | "L = CHR ''U''" | "L = CHR ''V''" by auto
  then show ?thesis
    by cases (simp_all add: parseJoints_def setJoint_lookup jointOfLetter_def)
qed


lemma backtrack_no_start:
  "(case cs of [] \<Rightarrow> True | d # _ \<Rightarrow> d \<notin> set ''+-.0123456789'') \<Longrightarrow>
   backtrack numberPattern cs = None"
  by (cases cs) (auto simp: numberPattern_def isDigit_def)

lemma matchField_noNumberAfter:
  "noNumberAfter L s \<Longrightarrow> matchField L s = None"
proof (induction L s rule: noNumberAfter.induct)
  case (1 L)
  then show ?case by simp
next
  case (2 L c)
  then show ?case by (simp add: backtrack_no_start)
next
  case (3 L c d s)
  then show ?case 
    using backtrack_no_start [of "d # s"] by (auto split: if_splits)
qed

lemma fieldLetter_plain: "L \<in> set ''XYZWUVF'' \<Longrightarrow> plainLetter L"
  by (auto simp: plainLetter_def)

section \<open>Repeated fields and the feed rate\<close>

lemma first_match_general:
  assumes "L \<in> set ''XYZWUVF''" "matchField L pre = None"
    and "isNumberText sg ds fs" "endsNumber fs rest"
  shows "matchField L (pre @ L # numberText sg ds fs @ rest) = Some (numberText sg ds fs)"
  by (rule matchField_first [OF fieldLetter_plain [OF assms(1)] assms(2-4)])

text \<open>
  C6, against the claim. In the line \<^verbatim>\<open>G06 X10 X20 F100 F200\<close> the fields X and F both
  appear twice with a numeric value. The motion decoded from it moves theta1 to 10 degrees
  at feed rate 100, the values of the first occurrences; the values of the last
  occurrences, 20 and 200, are not used.
\<close>

theorem repeated_field_last_not_used:
  "decode ''G06 X10 X20 F100 F200'' =
     Motion ''G06 X10 X20 F100 F200'' [(''theta1'', degToRad (Fin 10))] (Fin 100)
   \<and> degToRad (Fin 10) \<noteq> degToRad (Fin 20) \<and> Fin 100 \<noteq> Fin 200"
proof -
  have m: "matchField CHR ''X'' ''G06 X10 X20 F100 F200'' = Some ''10''"
    "matchField CHR ''Y'' ''G06 X10 X20 F100 F200'' = None"
    "matchField CHR ''Z'' ''G06 X10 X20 F100 F200'' = None"
    "matchField CHR ''W'' ''G06 X10 X20 F100 F200'' = None"
    "matchField CHR ''U'' ''G06 X10 X20 F100 F200'' = None"
    "matchField CHR ''V'' ''G06 X10 X20 F100 F200'' = None"
    "matchField CHR ''F'' ''G06 X10 X20 F100 F200'' = Some ''100''"
    by code_simp+
  have p: "parseFloat ''10'' = Fin 10" "parseFloat ''100'' = Fin 100"
    by code_simp+
  have t: "trim ''G06 X10 X20 F100 F200'' = ''G06 X10 X20 F100 F200''"
    by code_simp
  have "decode ''G06 X10 X20 F100 F200'' =
     Motion ''G06 X10 X20 F100 F200'' [(''theta1'', degToRad (Fin 10))] (Fin 100)"
    by (simp add: decode_def t startsWith_def parseJoints_def setJoint_def parseFeedRate_def m p
          del: matchField.simps)
  moreover have "degToRad (Fin 10) \<noteq> degToRad (Fin 20)"
    by (simp add: degToRad_def jmul_def jdiv_def jsFin_def jsZero_def)
  ultimately show ?thesis by simp
qed

text \<open>
  C6, as amended. Let a line consist of a text \<open>pre\<close> in which the pattern of the field
  letter \<open>L\<close> (one of X, Y, Z, W, U, V, F) matches nowhere, then the letter \<open>L\<close> followed
  by the text of a number, then any text \<open>rest\<close> that does not continue the number. Then
  the value used is that of this first numeric occurrence, whatever \<open>rest\<close> holds, later
  occurrences of \<open>L\<close> included: for an axis letter it is the target of its joint,
  converted to radians; for F it is the feed rate.
\<close>

theorem first_numeric_field_wins:
  assumes "L \<in> set ''XYZWUVF''" "matchField L pre = None"
    and "isNumberText sg ds fs" "endsNumber fs rest"
  shows "(if L = CHR ''F''
          then parseFeedRate (pre @ L # numberText sg ds fs @ rest)
                 = jsFin (numberValue sg ds fs) (sg = ''-'')
          else map_of (parseJoints (pre @ L # numberText sg ds fs @ rest)) (jointOfLetter L)
                 = Some (degToRad (jsFin (numberValue sg ds fs) (sg = ''-''))))"
proof (cases "L = CHR ''F''")
  case True
  with first_match_general [OF assms] parseFloat_numberText [OF assms(3)] show ?thesis
    by (simp add: parseFeedRate_def)
next
  case False
  with assms(1) have "L \<in> set ''XYZWUV''" by auto
  from parseJoints_lookup [OF this, of "pre @ L # numberText sg ds fs @ rest"]
    first_match_general [OF assms] parseFloat_numberText [OF assms(3)] False
  show ?thesis by simp
qed

theorem first_numeric_field_wins_witness:
  "map_of (parseJoints ''G06 X Y1 X-10.5 X20'') ''theta1'' = Some (degToRad (Fin (- 10.5)))"
proof -
  have 1: "CHR ''X'' \<in> set ''XYZWUVF''" by simp
  have 2: "matchField CHR ''X'' ''G06 X Y1 '' = None" by code_simp
  have 3: "isNumberText ''-'' ''10'' ''5''"
    by (simp add: isNumberText_def isSign_def allDigits_def isDigit_def)
  have 4: "endsNumber ''5'' '' X20''"
    by (simp add: endsNumber_def isDigit_def)
  have v: "numberValue ''-'' ''10'' ''5'' = - 10.5"
    by (simp add: numberValue_def digitsVal_def digitVal_def)
  show ?thesis
    using first_numeric_field_wins [OF 1 2 3 4]
    by (simp add: numberText_def jointOfLetter_def v jsFin_def)
qed

text \<open>
  C7, against the claim. The line \<^verbatim>\<open>G06 X10 F0\<close> is decoded to a motion with feed rate 0,
  and \<^verbatim>\<open>G06 X10 F-5\<close> to a motion with feed rate \<open>-5\<close>: a value \<open>\<le> 0\<close> in the F field is
  used as it is, not replaced by 500.
\<close>

theorem nonpositive_feed_rate_used:
  "decode ''G06 X10 F0'' = Motion ''G06 X10 F0'' [(''theta1'', degToRad (Fin 10))] (Fin 0)
   \<and> decode ''G06 X10 F-5'' = Motion ''G06 X10 F-5'' [(''theta1'', degToRad (Fin 10))] (Fin (- 5))
   \<and> \<not> jlt (Fin 0) (Fin 0) \<and> \<not> jlt (Fin 0) (Fin (- 5))"
proof -
  have m: "matchField CHR ''X'' ''G06 X10 F0'' = Some ''10''"
    "matchField CHR ''Y'' ''G06 X10 F0'' = None"
    "matchField CHR ''Z'' ''G06 X10 F0'' = None"
    "matchField CHR ''W'' ''G06 X10 F0'' = None"
    "matchField CHR ''U'' ''G06 X10 F0'' = None"
    "matchField CHR ''V'' ''G06 X10 F0'' = None"
    "matchField CHR ''F'' ''G06 X10 F0'' = Some ''0''"
    by code_simp+
  have m': "matchField CHR ''X'' ''G06 X10 F-5'' = Some ''10''"
    "matchField CHR ''Y'' ''G06 X10 F-5'' = None"
    "matchField CHR ''Z'' ''G06 X10 F-5'' = None"
    "matchField CHR ''W'' ''G06 X10 F-5'' = None"
    "matchField CHR ''U'' ''G06 X10 F-5'' = None"
    "matchField CHR ''V'' ''G06 X10 F-5'' = None"
    "matchField CHR ''F'' ''G06 X10 F-5'' = Some ''-5''"
    by code_simp+
  have p: "parseFloat ''10'' = Fin 10" "parseFloat ''0'' = Fin 0" "parseFloat ''-5'' = Fin (- 5)"
    by code_simp+
  have t: "trim ''G06 X10 F0'' = ''G06 X10 F0''" "trim ''G06 X10 F-5'' = ''G06 X10 F-5''"
    by code_simp+
  have "decode ''G06 X10 F0'' = Motion ''G06 X10 F0'' [(''theta1'', degToRad (Fin 10))] (Fin 0)"
    by (simp add: decode_def t startsWith_def parseJoints_def setJoint_def parseFeedRate_def m p
          del: matchField.simps)
  moreover have "decode ''G06 X10 F-5'' =
      Motion ''G06 X10 F-5'' [(''theta1'', degToRad (Fin 10))] (Fin (- 5))"
    by (simp add: decode_def t startsWith_def parseJoints_def setJoint_def parseFeedRate_def m' p
          del: matchField.simps)
  ultimately show ?thesis
    by (simp add: jlt_def)
qed

text \<open>
  C7, as amended. The feed rate is the default 500 exactly when the pattern of the F field
  matches nowhere in the line; this is so when the line has no F, and when every F is
  followed by a character that cannot start a number. Otherwise the feed rate is the
  number of the first numeric F field, with its sign: a zero or a negative value is
  kept (there is no fallback for it).
\<close>

theorem feed_rate_default_or_first_field:
  "(matchField CHR ''F'' line = None \<longrightarrow> parseFeedRate line = Fin 500)
   \<and> (CHR ''F'' \<notin> set line \<longrightarrow> parseFeedRate line = Fin 500)
   \<and> (noNumberAfter CHR ''F'' line \<longrightarrow> parseFeedRate line = Fin 500)
   \<and> (matchField CHR ''F'' pre = None \<and> isNumberText sg ds fs \<and> endsNumber fs rest \<longrightarrow>
        parseFeedRate (pre @ CHR ''F'' # numberText sg ds fs @ rest)
          = jsFin (numberValue sg ds fs) (sg = ''-'')
        \<and> (sg = ''-'' \<longrightarrow> \<not> jlt (Fin 0) (jsFin (numberValue sg ds fs) (sg = ''-''))))"
proof -
  have neg: "\<not> jlt (Fin 0) (jsFin (numberValue ''-'' ds fs) True)"
  proof -
    have "- real (digitsVal ds) \<le> real (digitsVal fs) / 10 ^ length fs"
      by (rule order_trans [of _ 0]) simp_all
    then have "numberValue ''-'' ds fs \<le> 0"
      by (simp add: numberValue_def)
    then show ?thesis
      by (simp add: jsFin_def jsZero_def jlt_def)
  qed
  have first: "parseFeedRate (pre @ CHR ''F'' # numberText sg ds fs @ rest)
      = jsFin (numberValue sg ds fs) (sg = ''-'')"
    if "matchField CHR ''F'' pre = None" "isNumberText sg ds fs" "endsNumber fs rest"
    using first_match_general [of "CHR ''F''" pre sg ds fs rest] that
      parseFloat_numberText [OF that(2)]
    by (simp add: parseFeedRate_def)
  show ?thesis
    using neg first
    by (auto simp: parseFeedRate_def matchField_absent matchField_noNumberAfter)
qed

theorem feed_rate_default_or_first_field_witness:
  "parseFeedRate ''G06 X10'' = Fin 500
   \<and> parseFeedRate ''G06 X10 Fast'' = Fin 500
   \<and> parseFeedRate ''G06 X10 F-5 F7'' = Fin (- 5)
   \<and> \<not> jlt (Fin 0) (Fin (- 5))"
proof -
  have 1: "matchField CHR ''F'' ''G06 X10'' = None" "CHR ''F'' \<notin> set ''G06 X10''"
    by code_simp simp
  have 2: "noNumberAfter CHR ''F'' ''G06 X10 Fast''" by simp
  have 3: "matchField CHR ''F'' ''G06 X10 '' = None" by code_simp
  have 4: "isNumberText ''-'' ''5'' []"
    by (simp add: isNumberText_def isSign_def allDigits_def isDigit_def)
  have 5: "endsNumber [] '' F7''"
    by (simp add: endsNumber_def isDigit_def)
  have v: "numberValue ''-'' ''5'' [] = - 5"
    by (simp add: numberValue_def digitsVal_def digitVal_def)
  show ?thesis
    using feed_rate_default_or_first_field [of "''G06 X10''"] 1
      feed_rate_default_or_first_field [of "''G06 X10 Fast''"] 2
      feed_rate_default_or_first_field [of _ "''G06 X10 ''" "''-''" "''5''" "[]" "'' F7''"] 3 4 5
    by (simp add: numberText_def v jsFin_def)
qed

section \<open>Properties of the encoder and of decoding its output\<close>

lemma jmul_Fin_pos: "0 < b \<Longrightarrow> jmul (Fin a) (Fin b) = Fin (a * b)"
  by (auto simp: jmul_def jsFin_def jsZero_def)

lemma jdiv_Fin_pos: "0 < b \<Longrightarrow> jdiv (Fin a) (Fin b) = Fin (a / b)"
  by (auto simp: jdiv_def jsFin_def jsZero_def)



lemma radToDeg_Fin: "radToDeg (Fin v) = Fin (v * 180 / pi)"
  by (simp add: radToDeg_def jmul_Fin_pos jdiv_Fin_pos)

lemma degToRad_Fin: "degToRad (Fin d) = Fin (d * pi / 180)"
  by (simp add: degToRad_def jmul_Fin_pos jdiv_Fin_pos)




lemma orZero_Fin: "orZero (Some (Fin v)) = Fin v"
  by (simp add: orZero_def)

lemma digitVal_digitChar: "k < 10 \<Longrightarrow> digitVal (digitChar k) = k"
proof -
  assume "k < 10"
  then have "k \<in> {0, 1, 2, 3, 4, 5, 6, 7, 8, 9}" by auto
  then show ?thesis
    by (auto simp: digitVal_def digitChar_def)
qed

lemma isDigit_digitChar: "k < 10 \<Longrightarrow> isDigit (digitChar k)"
  unfolding isDigit_def digitChar_def by (rule nth_mem) simp

lemma allDigits_digitsOf: "allDigits (digitsOf n)"
  by (induction n rule: digitsOf.induct)
     (subst digitsOf.simps, simp add: allDigits_def isDigit_digitChar)

lemma digitsOf_not_Nil: "digitsOf n \<noteq> []"
  by (subst digitsOf.simps) simp

lemma digitsVal_snoc: "digitsVal (ds @ [c]) = 10 * digitsVal ds + digitVal c"
  by (simp add: digitsVal_def)

lemma digitsVal_digitsOf: "digitsVal (digitsOf n) = n"
proof (induction n rule: digitsOf.induct)
  case (1 n)
  show ?case
  proof (cases "n < 10")
    case True
    then show ?thesis
      by (subst digitsOf.simps) (simp add: digitsVal_def digitVal_digitChar)
  next
    case False
    with 1 show ?thesis
      by (subst digitsOf.simps) (simp add: digitsVal_snoc digitVal_digitChar)
  qed
qed

lemma padAndPoint_1: "padAndPoint 1 (digitsOf n) = digitsOf (n div 10) @ ''.'' @ [digitChar (n mod 10)]"
proof (cases "n < 10")
  case True
  then have "digitsOf n = [digitChar n]" by (subst digitsOf.simps) simp
  moreover have "digitsOf 0 = ''0''" by (subst digitsOf.simps) (simp add: digitChar_def)
  ultimately show ?thesis using True by (simp add: padAndPoint_def)
next
  case False
  then have "digitsOf n = digitsOf (n div 10) @ [digitChar (n mod 10)]"
    by (subst digitsOf.simps) simp
  then show ?thesis using digitsOf_not_Nil [of "n div 10"]
    by (cases "digitsOf (n div 10)") (simp_all add: padAndPoint_def)
qed

lemma toFixed_1:
  assumes "\<bar>r\<bar> < 10 ^ 21"
  shows "toFixed big (Fin r) 1 =
    numberText (if r < 0 then ''-'' else []) (digitsOf (nat \<lfloor>\<bar>r\<bar> * 10 + 1 / 2\<rfloor> div 10))
      [digitChar (nat \<lfloor>\<bar>r\<bar> * 10 + 1 / 2\<rfloor> mod 10)]"
  using assms by (simp add: toFixed_def numberText_def padAndPoint_1 del: One_nat_def)

lemma toFixed_1_isNumberText:
  "isNumberText (if (r::real) < 0 then ''-'' else []) (digitsOf (nat \<lfloor>\<bar>r\<bar> * 10 + 1 / 2\<rfloor> div 10))
      [digitChar (nat \<lfloor>\<bar>r\<bar> * 10 + 1 / 2\<rfloor> mod 10)]"
proof -
  have "allDigits [digitChar (k mod 10)]" for k
    by (simp add: allDigits_def isDigit_digitChar)
  then show ?thesis
    by (simp add: isNumberText_def isSign_def allDigits_digitsOf digitsOf_not_Nil)
qed

lemma toFixed_1_value:
  "\<bar>numberValue (if r < 0 then ''-'' else []) (digitsOf (nat \<lfloor>\<bar>r\<bar> * 10 + 1 / 2\<rfloor> div 10))
      [digitChar (nat \<lfloor>\<bar>r\<bar> * 10 + 1 / 2\<rfloor> mod 10)] - r\<bar> \<le> 1 / 20"
proof -
  define n where "n = nat \<lfloor>\<bar>r\<bar> * 10 + 1 / 2\<rfloor>"
  have "real (n div 10) + real (n mod 10) / 10 = real n / 10"
  proof -
    have "real (10 * (n div 10) + n mod 10) = real n"
      by (simp only: mult_div_mod_eq)
    then have "10 * real (n div 10) + real (n mod 10) = real n"
      by (simp only: of_nat_add of_nat_mult of_nat_numeral)
    then show ?thesis by simp
  qed
  moreover have "real n \<le> \<bar>r\<bar> * 10 + 1 / 2"
    unfolding n_def by linarith
  moreover have "\<bar>r\<bar> * 10 + 1 / 2 < real n + 1"
    unfolding n_def by linarith
  moreover have "digitsVal [digitChar (n mod 10)] = n mod 10"
    by (simp add: digitsVal_def digitVal_digitChar)
  ultimately show ?thesis
    unfolding n_def [symmetric]
    by (auto simp: numberValue_def digitsVal_digitsOf abs_if)
qed

lemma orZero_finite: "isFinite (orZero x) \<Longrightarrow> orZero x = Fin (mag (orZero x))"
  by (cases x; cases "the x") (auto simp: orZero_def isFinite_def)

lemma fieldText_form:
  assumes "inRange js name"
  shows "\<exists>sg ds fs. fieldText big js name = numberText sg ds fs \<and> isNumberText sg ds fs \<and> fs \<noteq> []
           \<and> \<bar>numberValue sg ds fs - wireDegrees js name\<bar> \<le> 1 / 20"
proof -
  define v where "v = mag (orZero (map_of js name))"
  have o: "orZero (map_of js name) = Fin v"
    using assms orZero_finite unfolding v_def inRange_def by blast
  have d: "wireDegrees js name = v * 180 / pi"
    by (simp add: wireDegrees_def o radToDeg_Fin)
  have r: "\<bar>v * 180 / pi\<bar> < 10 ^ 21"
    using assms unfolding inRange_def d by simp
  define sg where "sg = (if v * 180 / pi < 0 then ''-'' else [])"
  define ds where "ds = digitsOf (nat \<lfloor>\<bar>v * 180 / pi\<bar> * 10 + 1 / 2\<rfloor> div 10)"
  define fs where "fs = [digitChar (nat \<lfloor>\<bar>v * 180 / pi\<bar> * 10 + 1 / 2\<rfloor> mod 10)]"
  have "fieldText big js name = toFixed big (Fin (v * 180 / pi)) 1"
    by (simp add: fieldText_def o radToDeg_Fin)
  also have "\<dots> = numberText sg ds fs"
    unfolding sg_def ds_def fs_def by (rule toFixed_1 [OF r])
  finally have 1: "fieldText big js name = numberText sg ds fs" .
  have 2: "isNumberText sg ds fs"
    unfolding sg_def ds_def fs_def by (rule toFixed_1_isNumberText [of "v * 180 / pi"])
  have 3: "fs \<noteq> []" by (simp add: fs_def)
  have 4: "\<bar>numberValue sg ds fs - wireDegrees js name\<bar> \<le> 1 / 20"
    unfolding d sg_def ds_def fs_def by (rule toFixed_1_value [of "v * 180 / pi"])
  from 1 2 3 4 show ?thesis by blast
qed

lemma numberText_chars:
  assumes "isNumberText sg ds fs"
  shows "set (numberText sg ds fs) \<subseteq> set ''+-.0123456789''"
proof -
  define S where "S = set ''+-.0123456789''"
  have d: "c \<in> S" if "isDigit c" for c
    using that by (simp add: isDigit_def S_def)
  have "set ds \<subseteq> S" "set fs \<subseteq> S"
    using assms d by (auto simp: isNumberText_def allDigits_def list_all_iff)
  moreover have "set sg \<subseteq> S"
    using assms by (auto simp: isNumberText_def isSign_def S_def)
  moreover have "CHR ''.'' \<in> S"
    by (simp add: S_def)
  ultimately have "set (numberText sg ds fs) \<subseteq> S"
    by (auto simp: numberText_def)
  then show ?thesis by (simp only: S_def)
qed

lemma matchField_field:
  assumes "L \<in> set ''XYZWUVF''" "L \<notin> set pre" "fieldForm n"
    and "rest = [] \<or> hd rest = CHR '' ''"
  shows "matchField L (pre @ L # n @ rest) = Some n"
proof -
  from assms(3) obtain sg ds fs where n: "n = numberText sg ds fs" "isNumberText sg ds fs" "fs \<noteq> []"
    unfolding fieldForm_def by blast
  have "endsNumber fs rest"
    using assms(4) by (cases rest) (auto simp: endsNumber_def isDigit_def)
  from first_match_general [OF assms(1) matchField_absent [OF assms(2)] n(2) this]
  show ?thesis by (simp add: n(1))
qed

lemma fieldForm_chars: "fieldForm n \<Longrightarrow> set n \<subseteq> set ''+-.0123456789''"
  unfolding fieldForm_def using numberText_chars by blast

lemma trim_line:
  "\<not> isWhiteSpace a \<Longrightarrow> \<not> isWhiteSpace b \<Longrightarrow> trim (a # m @ [b, newline]) = a # m @ [b]"
  by (simp add: trim_def isWhiteSpace_def newline_def)

lemma fieldForm_no_letter:
  assumes "fieldForm n" "L \<in> set ''XYZWUVF''"
  shows "L \<notin> set n"
proof -
  have "plainLetter L" by (rule fieldLetter_plain [OF assms(2)])
  then have "L \<notin> set ''+-.0123456789''" unfolding plainLetter_def .
  with fieldForm_chars [OF assms(1)] show ?thesis by blast
qed

lemma command_fields:
  assumes "fieldForm n1" "fieldForm n2" "fieldForm n3" "fieldForm n4" "fieldForm n5" "fieldForm n6"
  defines "t \<equiv> ''G06 X'' @ n1 @ '' Y'' @ n2 @ '' Z'' @ n3 @ '' W'' @ n4 @ '' U'' @ n5 @ '' V'' @ n6 @ '' F500''"
  shows "matchField CHR ''X'' t = Some n1" "matchField CHR ''Y'' t = Some n2"
    "matchField CHR ''Z'' t = Some n3" "matchField CHR ''W'' t = Some n4"
    "matchField CHR ''U'' t = Some n5" "matchField CHR ''V'' t = Some n6"
    "matchField CHR ''F'' t = Some ''500''"
proof -
  have c: "L \<notin> set n1" "L \<notin> set n2" "L \<notin> set n3" "L \<notin> set n4" "L \<notin> set n5"
    "L \<notin> set n6" if "L \<in> set ''XYZWUVF''" for L
    using assms(1-6) that by (simp_all only: fieldForm_no_letter not_False_eq_True)
  have f: "isNumberText [] ''500'' []" "endsNumber [] []"
    by (simp_all add: isNumberText_def isSign_def allDigits_def isDigit_def endsNumber_def)
  show "matchField CHR ''X'' t = Some n1"
    using matchField_field [of "CHR ''X''" "''G06 ''" n1
        "'' Y'' @ n2 @ '' Z'' @ n3 @ '' W'' @ n4 @ '' U'' @ n5 @ '' V'' @ n6 @ '' F500''"] assms(1)
    by (simp add: t_def del: matchField.simps)
  show "matchField CHR ''Y'' t = Some n2"
    using matchField_field [of "CHR ''Y''" "''G06 X'' @ n1 @ '' ''" n2
        "'' Z'' @ n3 @ '' W'' @ n4 @ '' U'' @ n5 @ '' V'' @ n6 @ '' F500''"] assms(2)
    by (simp add: t_def c del: matchField.simps)
  show "matchField CHR ''Z'' t = Some n3"
    using matchField_field [of "CHR ''Z''" "''G06 X'' @ n1 @ '' Y'' @ n2 @ '' ''" n3
        "'' W'' @ n4 @ '' U'' @ n5 @ '' V'' @ n6 @ '' F500''"] assms(3)
    by (simp add: t_def c del: matchField.simps)
  show "matchField CHR ''W'' t = Some n4"
    using matchField_field [of "CHR ''W''" "''G06 X'' @ n1 @ '' Y'' @ n2 @ '' Z'' @ n3 @ '' ''" n4
        "'' U'' @ n5 @ '' V'' @ n6 @ '' F500''"] assms(4)
    by (simp add: t_def c del: matchField.simps)
  show "matchField CHR ''U'' t = Some n5"
    using matchField_field [of "CHR ''U''"
        "''G06 X'' @ n1 @ '' Y'' @ n2 @ '' Z'' @ n3 @ '' W'' @ n4 @ '' ''" n5
        "'' V'' @ n6 @ '' F500''"] assms(5)
    by (simp add: t_def c del: matchField.simps)
  show "matchField CHR ''V'' t = Some n6"
    using matchField_field [of "CHR ''V''"
        "''G06 X'' @ n1 @ '' Y'' @ n2 @ '' Z'' @ n3 @ '' W'' @ n4 @ '' U'' @ n5 @ '' ''" n6
        "'' F500''"] assms(6)
    by (simp add: t_def c del: matchField.simps)
  show "matchField CHR ''F'' t = Some ''500''"
    using first_match_general [of "CHR ''F''"
        "''G06 X'' @ n1 @ '' Y'' @ n2 @ '' Z'' @ n3 @ '' W'' @ n4 @ '' U'' @ n5 @ '' V'' @ n6 @ '' ''"
        "[]" "''500''" "[]" "[]", OF _ matchField_absent f]
    by (simp add: t_def c numberText_def del: matchField.simps)
qed

lemma fieldText_fieldForm: "inRange js name \<Longrightarrow> fieldForm (fieldText big js name)"
  using fieldText_form [of js name big] unfolding fieldForm_def by blast


lemma decode_encodeCommand:
  assumes "\<forall>name \<in> set jointNames. inRange js name"
  shows "decode (encodeCommand big js) =
    Motion (''G06 X'' @ fieldText big js ''theta1'' @ '' Y'' @ fieldText big js ''theta2'' @
            '' Z'' @ fieldText big js ''theta3'' @ '' W'' @ fieldText big js ''theta4'' @
            '' U'' @ fieldText big js ''theta5'' @ '' V'' @ fieldText big js ''theta6'' @ '' F500'')
      (map (\<lambda>name. (name, degToRad (parseFloat (fieldText big js name)))) jointNames)
      (Fin 500)"
proof -
  define n1 where "n1 = fieldText big js ''theta1''"
  define n2 where "n2 = fieldText big js ''theta2''"
  define n3 where "n3 = fieldText big js ''theta3''"
  define n4 where "n4 = fieldText big js ''theta4''"
  define n5 where "n5 = fieldText big js ''theta5''"
  define n6 where "n6 = fieldText big js ''theta6''"
  define t where "t = ''G06 X'' @ n1 @ '' Y'' @ n2 @ '' Z'' @ n3 @ '' W'' @ n4 @ '' U'' @ n5 @ '' V'' @ n6 @ '' F500''"
  have ff: "fieldForm n1" "fieldForm n2" "fieldForm n3" "fieldForm n4" "fieldForm n5" "fieldForm n6"
    unfolding n1_def n2_def n3_def n4_def n5_def n6_def
    using assms by (simp_all add: jointNames_def fieldText_fieldForm)
  note m = command_fields [OF ff, folded t_def]
  have enc: "encodeCommand big js = t @ [newline]"
    by (simp add: encodeCommand_def t_def n1_def n2_def n3_def n4_def n5_def n6_def)
  have "trim (t @ [newline]) = t"
    using trim_line [of "CHR ''G''" "CHR ''0''"
      "''06 X'' @ n1 @ '' Y'' @ n2 @ '' Z'' @ n3 @ '' W'' @ n4 @ '' U'' @ n5 @ '' V'' @ n6 @ '' F50''"]
    by (simp add: t_def isWhiteSpace_def)
  then have tr: "trim (encodeCommand big js) = t" by (simp only: enc)
  have sw: "startsWith t ''G06''" "t \<noteq> []"
    by (simp_all add: t_def startsWith_def)
  have pj: "parseJoints t = [(''theta1'', degToRad (parseFloat n1)), (''theta2'', degToRad (parseFloat n2)),
      (''theta3'', degToRad (parseFloat n3)), (''theta4'', degToRad (parseFloat n4)),
      (''theta5'', degToRad (parseFloat n5)), (''theta6'', degToRad (parseFloat n6))]"
    by (simp add: parseJoints_def m setJoint_def)
  have p500: "parseFloat ''500'' = Fin 500" by code_simp
  have pf: "parseFeedRate t = Fin 500"
    by (simp add: parseFeedRate_def m p500)
  have "decode (encodeCommand big js) = Motion t (parseJoints t) (Fin 500)"
    unfolding decode_def tr using sw by (simp add: pf pj)
  then show ?thesis
    unfolding pj unfolding t_def n1_def n2_def n3_def n4_def n5_def n6_def
    by (simp add: jointNames_def)
qed

section \<open>Round trip and partial states\<close>

lemma decoded_targets:
  "map_of (map (\<lambda>name. (name, g name)) jointNames) name =
     (if name \<in> set jointNames then Some (g name) else None)"
  by (simp add: jointNames_def)

lemma absent_inRange: "map_of js name = None \<Longrightarrow> inRange js name"
  by (simp add: inRange_def wireDegrees_def orZero_def isFinite_def radToDeg_Fin)

lemma absent_fieldText: "map_of js name = None \<Longrightarrow> fieldText big js name = ''0.0''"
proof -
  assume "map_of js name = None"
  then have "fieldText big js name = toFixed big (Fin 0) 1"
    by (simp add: fieldText_def orZero_def radToDeg_Fin)
  also have "\<dots> = numberText [] (digitsOf 0) [digitChar 0]"
    using toFixed_1 [of 0 big] by simp
  also have "\<dots> = ''0.0''"
    by (subst digitsOf.simps) (simp add: numberText_def digitChar_def)
  finally show ?thesis .
qed

lemma parse_zero_field: "degToRad (parseFloat ''0.0'') = Fin 0"
proof -
  have "parseFloat ''0.0'' = Fin 0" by code_simp
  then show ?thesis by (simp add: degToRad_Fin)
qed



text \<open>
  C10. For every joint state, whatever joints it lacks, \<^verbatim>\<open>sendJointStates\<close> builds a line
  with all six fields in the order X, Y, Z, W, U, V followed by \<^verbatim>\<open>F500\<close> and the
  terminator (the encoder is a total function), and the field of every absent joint is
  \<^verbatim>\<open>0.0\<close>. When the joints that are present are in the range of fixed notation, the line
  decodes to a motion that names all six joints, with target 0 for each absent joint.
\<close>

theorem encode_partial_state:
  "encodeCommand big js =
     ''G06 X'' @ fieldText big js ''theta1'' @ '' Y'' @ fieldText big js ''theta2'' @
     '' Z'' @ fieldText big js ''theta3'' @ '' W'' @ fieldText big js ''theta4'' @
     '' U'' @ fieldText big js ''theta5'' @ '' V'' @ fieldText big js ''theta6'' @
     '' F500'' @ [newline]
   \<and> (\<forall>name. map_of js name = None \<longrightarrow> fieldText big js name = ''0.0'')
   \<and> ((\<forall>name \<in> set jointNames. map_of js name \<noteq> None \<longrightarrow> inRange js name) \<longrightarrow>
        (\<exists>t target. decode (encodeCommand big js) = Motion t target (Fin 500)
           \<and> map fst target = jointNames
           \<and> (\<forall>name \<in> set jointNames. map_of js name = None \<longrightarrow>
                 map_of target name = Some (Fin 0))))"
proof (intro conjI allI impI)
  show "encodeCommand big js =
     ''G06 X'' @ fieldText big js ''theta1'' @ '' Y'' @ fieldText big js ''theta2'' @
     '' Z'' @ fieldText big js ''theta3'' @ '' W'' @ fieldText big js ''theta4'' @
     '' U'' @ fieldText big js ''theta5'' @ '' V'' @ fieldText big js ''theta6'' @
     '' F500'' @ [newline]"
    by (simp add: encodeCommand_def)
next
  fix name assume "map_of js name = None"
  then show "fieldText big js name = ''0.0''" by (rule absent_fieldText)
next
  assume a: "\<forall>name \<in> set jointNames. map_of js name \<noteq> None \<longrightarrow> inRange js name"
  define g where "g = (\<lambda>name. degToRad (parseFloat (fieldText big js name)))"
  define target where "target = map (\<lambda>name. (name, g name)) jointNames"
  from a absent_inRange have r: "\<forall>name \<in> set jointNames. inRange js name" by blast
  from decode_encodeCommand [OF r, of big]
  obtain t where d: "decode (encodeCommand big js) = Motion t target (Fin 500)"
    unfolding target_def g_def by blast
  have k: "map fst target = jointNames"
    by (simp add: target_def comp_def)
  have "map_of target name = Some (Fin 0)"
    if "name \<in> set jointNames" "map_of js name = None" for name
  proof -
    have "map_of target name = Some (g name)"
      unfolding target_def using that(1) by (simp only: decoded_targets if_True)
    then show ?thesis
      by (simp add: g_def absent_fieldText [OF that(2)] parse_zero_field)
  qed
  with d k show "\<exists>t target. decode (encodeCommand big js) = Motion t target (Fin 500)
           \<and> map fst target = jointNames
           \<and> (\<forall>name \<in> set jointNames. map_of js name = None \<longrightarrow>
                 map_of target name = Some (Fin 0))"
    by blast
qed

theorem encode_partial_state_witness:
  "fieldText (\<lambda>a. []) [(''theta1'', Fin (pi / 4))] ''theta2'' = ''0.0''
   \<and> (\<exists>t target. decode (encodeCommand (\<lambda>a. []) [(''theta1'', Fin (pi / 4))])
           = Motion t target (Fin 500)
         \<and> map fst target = jointNames
         \<and> map_of target ''theta2'' = Some (Fin 0) \<and> map_of target ''theta6'' = Some (Fin 0))"
proof -
  define js where "js = [(''theta1'', Fin (pi / 4))]"
  have big: "180 / pi < 10 ^ 21"
  proof -
    have "180 / pi \<le> 180 / 2" using pi_ge_two by (intro divide_left_mono) simp_all
    then show ?thesis by simp
  qed
  have h: "\<forall>name \<in> set jointNames. map_of js name \<noteq> None \<longrightarrow> inRange js name"
    by (simp add: jointNames_def js_def inRange_def wireDegrees_def orZero_def isFinite_def
        radToDeg_Fin)
  have n: "map_of js ''theta2'' = None" "map_of js ''theta6'' = None"
    by (simp_all add: js_def)
  note T = encode_partial_state [of "\<lambda>a. []" js]
  from T n have f: "fieldText (\<lambda>a. []) js ''theta2'' = ''0.0''" by blast
  from T h obtain t target where d: "decode (encodeCommand (\<lambda>a. []) js) = Motion t target (Fin 500)"
    "map fst target = jointNames"
    "\<forall>name \<in> set jointNames. map_of js name = None \<longrightarrow> map_of target name = Some (Fin 0)"
    by blast
  from d(3) n have "map_of target ''theta2'' = Some (Fin 0)" "map_of target ''theta6'' = Some (Fin 0)"
    by (simp_all add: jointNames_def)
  with f d(1,2) show ?thesis
    unfolding js_def [symmetric] by blast
qed

section \<open>The duration of a motion\<close>

lemma jsub_Fin: "jsub (Fin a) (Fin b) = Fin (a - b)"
  by (auto simp: jsub_def jneg_def jadd_def jsFin_def jsZero_def)

lemma jadd_Fin: "jadd (Fin a) (Fin b) = Fin (a + b)"
  by (auto simp: jadd_def jsFin_def jsZero_def)

lemma jmul_Fin_nonneg: "0 \<le> a \<Longrightarrow> 0 \<le> b \<Longrightarrow> jmul (Fin a) (Fin b) = Fin (a * b)"
  by (auto simp: jmul_def jsFin_def jsZero_def)

lemma jabs_Fin: "jabs (Fin a) = Fin \<bar>a\<bar>"
  by (simp add: jabs_def)

lemma jmax_Fin: "jmax (Fin a) (Fin b) = Fin (max a b)"
  by (auto simp: jmax_def jlt_def)

lemma jmax_NegInf_Fin: "jmax NegInf (Fin b) = Fin b"
  by (simp add: jmax_def jlt_def)



lemma finite_cases: "isFinite x \<Longrightarrow> x = Fin (mag x) \<or> x = NegZero"
  by (cases x) (simp_all add: isFinite_def)






lemma jmin_Fin: "jmin (Fin a) (Fin b) = Fin (min a b)"
  by (auto simp: jmin_def jlt_def)

lemma jlt_Fin: "jlt (Fin a) (Fin b) \<longleftrightarrow> a < b"
  by (simp add: jlt_def)

lemma decode_X90:
  "decode ''G06 X90 F500'' = Motion ''G06 X90 F500'' [(''theta1'', Fin (pi / 2))] (Fin 500)"
proof -
  have m: "matchField CHR ''X'' ''G06 X90 F500'' = Some ''90''"
    "matchField CHR ''Y'' ''G06 X90 F500'' = None"
    "matchField CHR ''Z'' ''G06 X90 F500'' = None"
    "matchField CHR ''W'' ''G06 X90 F500'' = None"
    "matchField CHR ''U'' ''G06 X90 F500'' = None"
    "matchField CHR ''V'' ''G06 X90 F500'' = None"
    "matchField CHR ''F'' ''G06 X90 F500'' = Some ''500''"
    by code_simp+
  have p: "parseFloat ''90'' = Fin 90" "parseFloat ''500'' = Fin 500"
    by code_simp+
  have t: "trim ''G06 X90 F500'' = ''G06 X90 F500''"
    by code_simp
  show ?thesis
    by (simp add: decode_def t startsWith_def parseJoints_def setJoint_def parseFeedRate_def m p
          degToRad_Fin del: matchField.simps)
qed

lemma extract_X90: "extractCommands (''G06 X90 F500'' @ [newline]) = ([''G06 X90 F500''], [])"
  by code_simp

lemma maxAngle_X90: "maxAngleDiffDeg initialJointStates [(''theta1'', Fin (pi / 2))] = Fin 90"
  by (simp add: maxAngleDiffDeg_def Math_max_def initialJointStates_def
      orZero_Fin jsub_Fin jmul_Fin_pos jdiv_Fin_pos jabs_Fin jmax_NegInf_Fin)

lemma duration_X90:
  "moveDuration initialJointStates [(''theta1'', Fin (pi / 2))] (Fin 500) = Fin 10800"
  by (simp add: moveDuration_def maxAngle_X90 jmul_Fin_pos jdiv_Fin_pos jmax_Fin)

lemma moving_X90: "movingToFields ''G06 X90 F500'' = [''90'', ''0'', ''0'', ''0'', ''0'', ''0'']"
  by code_simp

lemma example_connect: "step big (ClickConnect 1 True) initialWorld = connectedWorld"
  by (simp add: connectToSerial_def addToLog_def initialWorld_def initialRender_def
      connectedWorld_def connectedRender_def)

lemma example_process:
  "processCommand initialRender 0 ''G06 X90 F500'' connectedWorld = movingWorld"
  by (simp add: processCommand_def decode_X90 smoothMoveTo_def addToLog_def moving_X90
      duration_X90 maxAngle_X90 connectedWorld_def movingWorld_def movingLog_def
      exampleTrajectory_def initialRender_def Let_def)

lemma example_chunk:
  "step big (Chunk 0 (''G06 X90 F500'' @ [newline])) connectedWorld = movingWorld"
proof -
  have "onChunk 0 (''G06 X90 F500'' @ [newline]) connectedWorld
      = processCommand initialRender 0 ''G06 X90 F500'' connectedWorld"
    using extract_X90 by (simp add: onChunk_def connectedWorld_def del: extractCommands.simps)
  then show ?thesis by (simp add: example_process)
qed

lemma progress_halfway: "progressAt exampleTrajectory 5400 = Fin (1 / 2)"
  by (simp add: progressAt_def exampleTrajectory_def jdiv_Fin_pos jmin_Fin)

lemma states_halfway:
  "currentStatesAt exampleTrajectory (Fin (1 / 2)) = [(''theta1'', Fin (pi / 4))]"
  by (simp add: currentStatesAt_def exampleTrajectory_def initialJointStates_def orZero_Fin
      jsub_Fin jmul_Fin_pos jadd_Fin)

lemma example_frame: "step big (Frame 5400) movingWorld = halfwayWorld"
  by (simp add: runFrame_def animate_def progress_halfway states_halfway jlt_Fin
      handleSerialDataReceived_def spread_def movingWorld_def halfwayWorld_def
      connectedRender_def initialRender_def initialJointStates_def halfwayJointStates_def Let_def)

lemma run_Cons: "run big (e # es) w = run big es (step big e w)"
  by (simp add: run_def)

lemma run_Nil: "run big [] w = w"
  by (simp add: run_def)

lemma accepted_trajectory:
  assumes "\<not> isMoving r" "onDataReceived r"
  shows "frames (smoothMoveTo r now target feedRate w) =
     frames w @ [\<lparr>closureOf = r, startStatesOf = jointStates r, targetStatesOf = target,
                  startTimeOf = now, durationOf = moveDuration (jointStates r) target feedRate\<rparr>]"
  using assms by (simp add: smoothMoveTo_def addToLog_def Let_def)



section \<open>Frames, time-outs and disconnecting\<close>

lemma animate_frames:
  "frames (animate now a w) = frames w @ (if completes now a then [] else [a])"
  by (simp add: animate_def completes_def handleSerialDataReceived_def addToLog_def Let_def)

lemma animate_timers:
  "timers (animate now a w) = timers w @ (if completes now a then [(now + 50, closureOf a)] else [])"
  by (simp add: animate_def completes_def handleSerialDataReceived_def addToLog_def Let_def)

lemma animate_written: "written (animate now a w) = written w"
  by (simp add: animate_def handleSerialDataReceived_def addToLog_def Let_def)

lemma animate_isMoving:
  "isMoving (latest (animate now a w)) = (if completes now a then False else isMoving (latest w))"
  by (simp add: animate_def completes_def handleSerialDataReceived_def addToLog_def Let_def)



lemma fold_animate:
  "frames (fold (animate now) as w) = frames w @ filter (\<lambda>a. \<not> completes now a) as
   \<and> timers (fold (animate now) as w)
       = timers w @ map (\<lambda>a. (now + 50, closureOf a)) (filter (completes now) as)
   \<and> written (fold (animate now) as w) = written w"
  by (induction as arbitrary: w) (simp_all add: animate_frames animate_timers animate_written)

lemma runFrame_effect:
  "frames (runFrame now w) = filter (\<lambda>a. \<not> completes now a) (frames w)
   \<and> timers (runFrame now w)
       = timers w @ map (\<lambda>a. (now + 50, closureOf a)) (filter (completes now) (frames w))
   \<and> written (runFrame now w) = written w"
  using fold_animate [of now "frames w" "w\<lparr>frames := []\<rparr>"] by (simp add: runFrame_def)

lemma runFrame_single:
  assumes "frames w = [a]"
  shows "isMoving (latest (runFrame now w)) = (if completes now a then False else isMoving (latest w))"
  using assms by (simp add: runFrame_def animate_isMoving)

lemma runFrame_idle: "frames w = [] \<Longrightarrow> runFrame now w = w"
  by (simp add: runFrame_def)

lemma frames_single_trace:
  assumes "frames w = [a]" "timers w = []"
  shows "case find (\<lambda>t. completes t a) ts of
           None \<Rightarrow> frames (fold runFrame ts w) = [a] \<and> timers (fold runFrame ts w) = []
                    \<and> isMoving (latest (fold runFrame ts w)) = isMoving (latest w)
         | Some t \<Rightarrow> frames (fold runFrame ts w) = [] \<and> timers (fold runFrame ts w) = [(t + 50, closureOf a)]
                    \<and> \<not> isMoving (latest (fold runFrame ts w))"
  using assms
proof (induction ts arbitrary: w)
  case Nil
  then show ?case by simp
next
  case (Cons t ts)
  show ?case
  proof (cases "completes t a")
    case True
    have f: "frames (runFrame t w) = []" "timers (runFrame t w) = [(t + 50, closureOf a)]"
      "\<not> isMoving (latest (runFrame t w))"
      using runFrame_effect [of t w] runFrame_single [OF Cons.prems(1), of t] Cons.prems True
      by simp_all
    have "fold runFrame ts (runFrame t w) = runFrame t w"
      using f(1) by (induction ts) (simp_all add: runFrame_idle)
    with True f show ?thesis by simp
  next
    case False
    have f: "frames (runFrame t w) = [a]" "timers (runFrame t w) = []"
      "isMoving (latest (runFrame t w)) = isMoving (latest w)"
      using runFrame_effect [of t w] runFrame_single [OF Cons.prems(1), of t] Cons.prems False
      by simp_all
    from Cons.IH [OF f(1,2)] False f(3) show ?thesis
      by (simp split: option.splits)
  qed
qed

lemma sendOkResponse_written:
  "written (sendOkResponse r ok w) =
     written w @ (if writer r \<noteq> None \<and> isConnected r \<and> ok then [okLine] else [])"
  by (simp add: sendOkResponse_def addToLog_def okLine_def)





lemma disconnect_keeps:
  "frames (disconnectSerial r c1 c2 c3 w) = frames w
   \<and> timers (disconnectSerial r c1 c2 c3 w) = timers w
   \<and> written (disconnectSerial r c1 c2 c3 w) = written w
   \<and> isMoving (latest (disconnectSerial r c1 c2 c3 w)) = isMoving (latest w)
   \<and> jointStates (latest (disconnectSerial r c1 c2 c3 w)) = jointStates (latest w)"
  by (auto simp: disconnectSerial_def releaseReader_def releaseWriter_def releasePort_def
      addToLog_def Let_def split: option.splits)



lemma completes_at_end: "completes 10800 exampleTrajectory"
  by (simp add: completes_def progressAt_def exampleTrajectory_def jdiv_Fin_pos jmin_Fin jlt_Fin)

lemma animate_log:
  "completes now a \<Longrightarrow> LogMovementCompleted \<in> set (logLines (animate now a w))"
  by (simp add: animate_def completes_def handleSerialDataReceived_def addToLog_def Let_def)

lemma example_disconnect:
  "step big (ClickDisconnect True True True) halfwayWorld = droppedWorld"
  by (simp add: disconnectSerial_def releaseReader_def releaseWriter_def releasePort_def
      addToLog_def halfwayWorld_def movingWorld_def droppedWorld_def connectedRender_def
      initialRender_def movingLog_def)

lemma example_completion:
  "frames (runFrame 10800 droppedWorld) = []"
  "timers (runFrame 10800 droppedWorld) = [(10850, initialRender)]"
  "written (runFrame 10800 droppedWorld) = []"
  "\<not> isMoving (latest (runFrame 10800 droppedWorld))"
  "LogMovementCompleted \<in> set (logLines (runFrame 10800 droppedWorld))"
proof -
  have f: "frames droppedWorld = [exampleTrajectory]" "timers droppedWorld = []"
    "written droppedWorld = []"
    by (simp_all add: droppedWorld_def)
  show "frames (runFrame 10800 droppedWorld) = []"
    "timers (runFrame 10800 droppedWorld) = [(10850, initialRender)]"
    "written (runFrame 10800 droppedWorld) = []"
    using runFrame_effect [of 10800 droppedWorld] completes_at_end
    by (simp_all add: f exampleTrajectory_def)
  show "\<not> isMoving (latest (runFrame 10800 droppedWorld))"
    using runFrame_single [OF f(1), of 10800] completes_at_end by simp
  show "LogMovementCompleted \<in> set (logLines (runFrame 10800 droppedWorld))"
    using animate_log [OF completes_at_end] by (simp add: runFrame_def f)
qed





lemma processCommand_frames:
  assumes "decode command = Motion t js f" "\<not> isMoving r" "onDataReceived r"
  shows "frames (processCommand r now command w) =
     frames w @ [\<lparr>closureOf = r, startStatesOf = jointStates r, targetStatesOf = js,
                  startTimeOf = now, durationOf = moveDuration (jointStates r) js f\<rparr>]"
  using assms by (simp add: processCommand_def accepted_trajectory addToLog_def)

lemma processCommand_isMoving:
  assumes "decode command = Motion t js f" "\<not> isMoving r" "onDataReceived r"
  shows "isMoving (latest (processCommand r now command w))"
  using assms by (simp add: processCommand_def smoothMoveTo_def addToLog_def Let_def)

lemma smoothMoveTo_rejects: "isMoving r \<Longrightarrow> smoothMoveTo r now target feedRate w = w"
  by (simp add: smoothMoveTo_def)

lemma decode_X10: "decode ''G06 X10'' = Motion ''G06 X10'' [(''theta1'', degToRad (Fin 10))] (Fin 500)"
proof -
  have m: "matchField CHR ''X'' ''G06 X10'' = Some ''10''"
    "matchField CHR ''Y'' ''G06 X10'' = None" "matchField CHR ''Z'' ''G06 X10'' = None"
    "matchField CHR ''W'' ''G06 X10'' = None" "matchField CHR ''U'' ''G06 X10'' = None"
    "matchField CHR ''V'' ''G06 X10'' = None" "matchField CHR ''F'' ''G06 X10'' = None"
    by code_simp+
  have p: "parseFloat ''10'' = Fin 10" by code_simp
  have t: "trim ''G06 X10'' = ''G06 X10''" by code_simp
  show ?thesis
    by (simp add: decode_def t startsWith_def parseJoints_def setJoint_def parseFeedRate_def m p
          del: matchField.simps)
qed

lemma decode_X20: "decode ''G06 X20'' = Motion ''G06 X20'' [(''theta1'', degToRad (Fin 20))] (Fin 500)"
proof -
  have m: "matchField CHR ''X'' ''G06 X20'' = Some ''20''"
    "matchField CHR ''Y'' ''G06 X20'' = None" "matchField CHR ''Z'' ''G06 X20'' = None"
    "matchField CHR ''W'' ''G06 X20'' = None" "matchField CHR ''U'' ''G06 X20'' = None"
    "matchField CHR ''V'' ''G06 X20'' = None" "matchField CHR ''F'' ''G06 X20'' = None"
    by code_simp+
  have p: "parseFloat ''20'' = Fin 20" by code_simp
  have t: "trim ''G06 X20'' = ''G06 X20''" by code_simp
  show ?thesis
    by (simp add: decode_def t startsWith_def parseJoints_def setJoint_def parseFeedRate_def m p
          del: matchField.simps)
qed

lemma extract_two:
  "extractCommands (''G06 X10'' @ [newline] @ ''G06 X20'' @ [newline]) = ([''G06 X10'', ''G06 X20''], [])"
  by code_simp

text \<open>
  C5, on the code. After Connect, one chunk brings two motion lines, \<^verbatim>\<open>G06 X10\<close> and
  \<^verbatim>\<open>G06 X20\<close>. The read loop hands both to the \<^verbatim>\<open>processCommand\<close> of the render in which
  \<^verbatim>\<open>connectToSerial\<close> ran, and the \<^verbatim>\<open>smoothMoveTo\<close> of that render tests its own constant
  \<^verbatim>\<open>isMoving\<close>, which is false and stays false whatever \<^verbatim>\<open>setIsMoving\<close> does. The second line
  arrives while the first trajectory is active (the page shows \<^verbatim>\<open>isMoving\<close>), and it is
  accepted: two trajectories are pending together, towards 10 and towards 20 degrees.
\<close>

theorem second_command_accepted_while_moving:
  "(let w = run big [ClickConnect 1 True,
               Chunk 0 (''G06 X10'' @ [newline] @ ''G06 X20'' @ [newline])] initialWorld
    in map targetStatesOf (frames w)
         = [[(''theta1'', degToRad (Fin 10))], [(''theta1'', degToRad (Fin 20))]]
       \<and> map startTimeOf (frames w) = [0, 0]
       \<and> isMoving (latest w))"
proof -
  define w1 where "w1 = processCommand initialRender 0 ''G06 X10'' connectedWorld"
  define w2 where "w2 = processCommand initialRender 0 ''G06 X20'' w1"
  have r: "\<not> isMoving initialRender" "onDataReceived initialRender"
    by (simp_all add: initialRender_def)
  have "onChunk 0 (''G06 X10'' @ [newline] @ ''G06 X20'' @ [newline]) connectedWorld = w2"
    using extract_two
    by (simp add: onChunk_def connectedWorld_def w1_def w2_def del: extractCommands.simps)
  then have run: "run big [ClickConnect 1 True,
               Chunk 0 (''G06 X10'' @ [newline] @ ''G06 X20'' @ [newline])] initialWorld = w2"
    by (simp only: run_Cons run_Nil example_connect) (simp only: step.simps)
  have f1: "frames w1 = [\<lparr>closureOf = initialRender, startStatesOf = jointStates initialRender,
      targetStatesOf = [(''theta1'', degToRad (Fin 10))], startTimeOf = 0,
      durationOf = moveDuration (jointStates initialRender) [(''theta1'', degToRad (Fin 10))] (Fin 500)\<rparr>]"
    unfolding w1_def using processCommand_frames [OF decode_X10 r, of 0 connectedWorld]
    by (simp add: connectedWorld_def)
  have f2: "frames w2 = frames w1 @ [\<lparr>closureOf = initialRender, startStatesOf = jointStates initialRender,
      targetStatesOf = [(''theta1'', degToRad (Fin 20))], startTimeOf = 0,
      durationOf = moveDuration (jointStates initialRender) [(''theta1'', degToRad (Fin 20))] (Fin 500)\<rparr>]"
    unfolding w2_def by (rule processCommand_frames [OF decode_X20 r])
  have m: "isMoving (latest w2)"
    unfolding w2_def by (rule processCommand_isMoving [OF decode_X20 r])
  show ?thesis
    unfolding run by (simp add: f2 f1 m)
qed

text \<open>
  C8, against the claim. A motion towards 90 degrees is under way (frame at 5400 ms) when
  Disconnect is clicked, and all three releases succeed. After the click the component
  is disconnected, but it is still moving and the trajectory is still pending, with no
  completion logged: the scheduler has not gone to Idle. The frame at 10800 ms then
  completes the motion and signals it: the completion is logged and the moving flag
  is cleared. No line is written.
\<close>

theorem disconnect_does_not_stop_motion:
  "(let w = run (\<lambda>a. [])
       [ClickConnect 1 True, Chunk 0 (''G06 X90 F500'' @ [newline]), Frame 5400,
        ClickDisconnect True True True] initialWorld;
        w' = run (\<lambda>a. []) [Frame 10800] w
    in \<not> isConnected (latest w) \<and> isMoving (latest w) \<and> length (frames w) = 1
       \<and> LogMovementCompleted \<notin> set (logLines w)
       \<and> LogMovementCompleted \<in> set (logLines w') \<and> \<not> isMoving (latest w')
       \<and> frames w' = [] \<and> written w' = [])"
proof -
  have "run (\<lambda>a. [])
       [ClickConnect 1 True, Chunk 0 (''G06 X90 F500'' @ [newline]), Frame 5400,
        ClickDisconnect True True True] initialWorld = droppedWorld"
    by (simp only: run_Cons run_Nil example_connect example_chunk example_frame
        example_disconnect)
  moreover have "run (\<lambda>a. []) [Frame 10800] droppedWorld = runFrame 10800 droppedWorld"
    by (simp only: run_Cons run_Nil step.simps)
  ultimately show ?thesis
    by (simp add: example_completion)
       (simp add: droppedWorld_def initialRender_def movingLog_def)
qed

text \<open>
  C8, as amended. \<^verbatim>\<open>disconnectSerial\<close> does not touch the trajectory scheduler, whatever
  the outcome of the releases: the pending animation callbacks, the pending time-outs,
  the moving flag and the joint states are unchanged, and nothing is written. So a
  trajectory that is active at the disconnect runs on and completes at the first later
  frame that finds its progress at 1, where it clears the moving flag and sets its
  time-out. An acknowledgment attempt whose \<^verbatim>\<open>sendOkResponse\<close> sees no writer or a
  disconnected state writes nothing.
\<close>

theorem disconnect_leaves_trajectory:
  "frames (disconnectSerial r c1 c2 c3 w) = frames w
   \<and> timers (disconnectSerial r c1 c2 c3 w) = timers w
   \<and> written (disconnectSerial r c1 c2 c3 w) = written w
   \<and> isMoving (latest (disconnectSerial r c1 c2 c3 w)) = isMoving (latest w)
   \<and> jointStates (latest (disconnectSerial r c1 c2 c3 w)) = jointStates (latest w)
   \<and> (frames w = [a] \<and> timers w = [] \<longrightarrow>
        (case find (\<lambda>t. completes t a) ts of
           None \<Rightarrow> frames (fold runFrame ts (disconnectSerial r c1 c2 c3 w)) = [a]
                    \<and> isMoving (latest (fold runFrame ts (disconnectSerial r c1 c2 c3 w)))
                        = isMoving (latest w)
         | Some t \<Rightarrow> frames (fold runFrame ts (disconnectSerial r c1 c2 c3 w)) = []
                    \<and> timers (fold runFrame ts (disconnectSerial r c1 c2 c3 w))
                        = [(t + 50, closureOf a)]
                    \<and> \<not> isMoving (latest (fold runFrame ts (disconnectSerial r c1 c2 c3 w)))))
   \<and> (writer r' = None \<or> \<not> isConnected r' \<longrightarrow>
        written (sendOkResponse r' ok w) = written w)"
proof -
  note k = disconnect_keeps [of r c1 c2 c3 w]
  have "case find (\<lambda>t. completes t a) ts of
           None \<Rightarrow> frames (fold runFrame ts (disconnectSerial r c1 c2 c3 w)) = [a]
                    \<and> timers (fold runFrame ts (disconnectSerial r c1 c2 c3 w)) = []
                    \<and> isMoving (latest (fold runFrame ts (disconnectSerial r c1 c2 c3 w)))
                        = isMoving (latest (disconnectSerial r c1 c2 c3 w))
         | Some t \<Rightarrow> frames (fold runFrame ts (disconnectSerial r c1 c2 c3 w)) = []
                    \<and> timers (fold runFrame ts (disconnectSerial r c1 c2 c3 w))
                        = [(t + 50, closureOf a)]
                    \<and> \<not> isMoving (latest (fold runFrame ts (disconnectSerial r c1 c2 c3 w)))"
    if "frames w = [a]" "timers w = []"
    by (rule frames_single_trace) (simp_all add: k that)
  then show ?thesis
    using k sendOkResponse_written [of r' ok w]
    by (auto split: option.splits)
qed

theorem disconnect_leaves_trajectory_witness:
  "frames (disconnectSerial (latest halfwayWorld) True True True halfwayWorld) = [exampleTrajectory]
   \<and> isMoving (latest (disconnectSerial (latest halfwayWorld) True True True halfwayWorld))
   \<and> frames (fold runFrame [10800]
        (disconnectSerial (latest halfwayWorld) True True True halfwayWorld)) = []
   \<and> written (sendOkResponse initialRender True halfwayWorld) = []"
proof -
  have h: "frames halfwayWorld = [exampleTrajectory] \<and> timers halfwayWorld = []"
    "isMoving (latest halfwayWorld)" "written halfwayWorld = []"
    by (simp_all add: halfwayWorld_def movingWorld_def)
  have f: "find (\<lambda>t. completes t exampleTrajectory) [10800] = Some 10800"
    using completes_at_end by simp
  have i: "writer initialRender = None \<or> \<not> isConnected initialRender"
    by (simp add: initialRender_def)
  note T = disconnect_leaves_trajectory
    [of "latest halfwayWorld" True True True halfwayWorld exampleTrajectory "[10800]"
        initialRender True]
  from T h(1) have "case find (\<lambda>t. completes t exampleTrajectory) [10800] of
      None \<Rightarrow> frames (fold runFrame [10800]
                 (disconnectSerial (latest halfwayWorld) True True True halfwayWorld))
               = [exampleTrajectory]
             \<and> isMoving (latest (fold runFrame [10800]
                 (disconnectSerial (latest halfwayWorld) True True True halfwayWorld)))
               = isMoving (latest halfwayWorld)
    | Some t \<Rightarrow> frames (fold runFrame [10800]
                 (disconnectSerial (latest halfwayWorld) True True True halfwayWorld)) = []
             \<and> timers (fold runFrame [10800]
                 (disconnectSerial (latest halfwayWorld) True True True halfwayWorld))
               = [(t + 50, closureOf exampleTrajectory)]
             \<and> \<not> isMoving (latest (fold runFrame [10800]
                 (disconnectSerial (latest halfwayWorld) True True True halfwayWorld)))"
    by blast
  then have "frames (fold runFrame [10800]
        (disconnectSerial (latest halfwayWorld) True True True halfwayWorld)) = []"
    unfolding f by simp
  moreover from T i have "written (sendOkResponse initialRender True halfwayWorld) = written halfwayWorld"
    by blast
  moreover from T have "frames (disconnectSerial (latest halfwayWorld) True True True halfwayWorld)
      = frames halfwayWorld"
    "isMoving (latest (disconnectSerial (latest halfwayWorld) True True True halfwayWorld))
      = isMoving (latest halfwayWorld)"
    by blast+
  ultimately show ?thesis
    using h by simp
qed




end
